theory Spec2Isabelle
  imports
    Complex_Main
    "HOL-Library.AList"
    "HOL-Library.Char_ord"
    "HOL-Library.List_Lexorder"
    "HOL-Library.Product_Lexorder"
begin

section \<open>The persistence layer (tc_market/storage.py)\<close>

text \<open>
  The tables of \<^verbatim>\<open>Storage._create_schema\<close> are lists of rows in insertion order. A column
  that is only ever written (a row id that nothing refers to, JSON metadata, display
  names, titles) is left out of the row. Identifiers come from \<^verbatim>\<open>uuid4\<close> in the source:
  where a new row's id is referred to later (users, cycles, candidates) the drawn id is
  an argument of the operation, and the primary key is checked as the database does.

  Time is an integer count of microseconds, the resolution of Python's \<^verbatim>\<open>datetime\<close>;
  the clock reading is an argument \<open>now\<close> of every operation that stamps a row.
  Calendar dates are proleptic Gregorian ordinals, as \<^verbatim>\<open>date.toordinal\<close> gives them.

  Every method of \<^verbatim>\<open>Storage\<close> that writes does so inside \<^verbatim>\<open>with self.conn:\<close>, which commits
  when the block ends and rolls back when an exception leaves it. A method therefore
  returns the exception together with the storage as it was, or its result together
  with the new storage.
\<close>

datatype py_error = KeyError | ValueError | TypeError | ImportError | IntegrityError |
  UnicodeEncodeError | OverflowError

type_synonym ident = string
type_synonym timestamp = int
type_synonym date = int

record user =
  u_id :: ident
  u_email :: string
  u_google_sub :: "string option"
  u_account_type :: string
  u_current_chips :: int
  u_last_daily_credit_date :: date

record ledger_entry =
  le_user_id :: ident
  le_cycle_id :: "ident option"
  le_event_type :: string
  le_chips_delta :: int

record cycle =
  cy_id :: ident
  cy_cycle_date :: date
  cy_status :: string
  cy_opened_at :: timestamp
  cy_closed_at :: "timestamp option"

record candidate_link =
  cl_id :: ident
  cl_cycle_id :: ident
  cl_submitted_by_user_id :: ident
  cl_original_url :: string
  cl_canonical_url :: string
  cl_domain :: string
  cl_created_at :: timestamp

record pick =
  pk_cycle_id :: ident
  pk_user_id :: ident
  pk_candidate_id :: ident
  pk_rank :: int
  pk_picked_at :: timestamp

record cycle_result =
  cr_cycle_id :: ident
  cr_candidate_id :: ident
  cr_is_winner :: bool

record click_event =
  ce_cycle_id :: ident
  ce_candidate_id :: ident
  ce_fingerprint_hash :: string

record curation_reward =
  cu_cycle_id :: ident
  cu_user_id :: ident
  cu_rank :: int
  cu_unique_clicks :: int
  cu_reward_chips :: int

record model_prediction =
  mp_cycle_id :: ident
  mp_model_user_id :: ident
  mp_candidate_id :: ident
  mp_probability :: rat
  mp_explanation :: string

record job_run =
  jr_job_name :: string
  jr_run_key :: string
  jr_status :: string

record storage =
  users :: "user list"
  chip_ledger :: "ledger_entry list"
  cycles :: "cycle list"
  candidate_links :: "candidate_link list"
  picks :: "pick list"
  cycle_results :: "cycle_result list"
  click_events :: "click_event list"
  curation_rewards :: "curation_reward list"
  model_predictions :: "model_prediction list"
  job_runs :: "job_run list"

definition empty_storage :: storage where
  "empty_storage = \<lparr>users = [], chip_ledger = [], cycles = [], candidate_links = [],
     picks = [], cycle_results = [], click_events = [], curation_rewards = [],
     model_predictions = [], job_runs = []\<rparr>"

text \<open>\<^verbatim>\<open>_now_iso\<close>: the clock with the microseconds cut off.\<close>

definition now_iso :: "timestamp \<Rightarrow> timestamp" where
  "now_iso now = now - now mod 1000000"

subsection \<open>Job run markers\<close>

text \<open>
  \<^verbatim>\<open>claim_job_run\<close> inserts a row into \<^verbatim>\<open>job_runs\<close>, whose \<^verbatim>\<open>UNIQUE(job_name, run_key)\<close>
  constraint makes the insert raise when the pair is already there; the method catches
  every exception and answers \<^verbatim>\<open>False\<close>.
\<close>

definition has_job_run :: "storage \<Rightarrow> string \<Rightarrow> string \<Rightarrow> bool" where
  "has_job_run s job_name run_key =
     list_ex (\<lambda>r. jr_job_name r = job_name \<and> jr_run_key r = run_key) (job_runs s)"

definition claim_job_run :: "string \<Rightarrow> string \<Rightarrow> storage \<Rightarrow> bool \<times> storage" where
  "claim_job_run job_name run_key s =
     (if has_job_run s job_name run_key then (False, s)
      else (True, s\<lparr>job_runs := job_runs s @
              [\<lparr>jr_job_name = job_name, jr_run_key = run_key, jr_status = ''DONE''\<rparr>]\<rparr>))"

text \<open>A sequence of claims, each on the storage the previous one left; the answers in order.\<close>

fun claim_all :: "(string \<times> string) list \<Rightarrow> storage \<Rightarrow> bool list \<times> storage" where
  "claim_all [] s = ([], s)"
| "claim_all ((j, k) # cs) s =
     (let r = claim_job_run j k s; rs = claim_all cs (snd r) in (fst r # fst rs, snd rs))"


subsection \<open>Outcomes\<close>

text \<open>
  An operation that may raise returns the exception or its value, next to the storage
  it leaves behind: the storage as committed when the exception left the operation.
\<close>

type_synonym 'a outcome = "(py_error + 'a) \<times> storage"

definition bind :: "'a outcome \<Rightarrow> ('a \<Rightarrow> storage \<Rightarrow> 'b outcome) \<Rightarrow> 'b outcome" where
  "bind r f = (case r of (Inl e, s) \<Rightarrow> (Inl e, s) | (Inr a, s) \<Rightarrow> f a s)"

subsection \<open>The Python library\<close>

text \<open>
  The code calls the standard library on text: \<^verbatim>\<open>str.strip\<close>, \<^verbatim>\<open>str.lower\<close>, \<^verbatim>\<open>urlparse\<close>,
  \<^verbatim>\<open>parse_qsl\<close>, \<^verbatim>\<open>urlencode\<close> and \<^verbatim>\<open>urlunparse\<close> of \<^verbatim>\<open>urllib.parse\<close>, and \<^verbatim>\<open>date.fromisoformat\<close>.
  These functions are arguments of the model: every operation that calls one of them
  takes the record \<open>lib\<close> of them, and what is proved of an operation with a free \<open>lib\<close>
  holds whatever the library does.

  A text is the list of its characters. The names and values that \<^verbatim>\<open>parse_qsl\<close> decodes
  from a query can hold any character of Unicode, so a decoded text is a list of code
  points. \<^verbatim>\<open>urlparse\<close> raises \<^verbatim>\<open>ValueError\<close> on some texts and \<^verbatim>\<open>urlencode\<close> raises
  \<^verbatim>\<open>UnicodeEncodeError\<close> on a surrogate; \<^verbatim>\<open>date.fromisoformat\<close> gives the ordinal of the
  date, or \<open>None\<close> where it raises \<^verbatim>\<open>ValueError\<close>.
\<close>

type_synonym ustring = "nat list"

record parse_result =
  pr_scheme :: string
  pr_netloc :: string
  pr_path :: string
  pr_params :: string
  pr_query :: string
  pr_fragment :: string

record pylib =
  py_strip :: "string \<Rightarrow> string"
  py_lower :: "string \<Rightarrow> string"
  py_lower_text :: "ustring \<Rightarrow> ustring"
  py_urlparse :: "string \<Rightarrow> py_error + parse_result"
  py_parse_qsl :: "string \<Rightarrow> (ustring \<times> ustring) list"
  py_urlencode :: "(ustring \<times> ustring) list \<Rightarrow> py_error + string"
  py_urlunparse :: "string \<times> string \<times> string \<times> string \<times> string \<times> string \<Rightarrow> string"
  py_fromisoformat :: "string \<Rightarrow> date option"

subsection \<open>Dates\<close>

text \<open>An argument typed \<^verbatim>\<open>date | str\<close>, and \<^verbatim>\<open>Storage._parse_date\<close>.\<close>

datatype date_arg = Date date | Str string

definition parse_date :: "pylib \<Rightarrow> date_arg \<Rightarrow> py_error + date" where
  "parse_date lib v =
     (case v of Date d \<Rightarrow> Inr d
      | Str t \<Rightarrow> (case py_fromisoformat lib t of None \<Rightarrow> Inl ValueError | Some d \<Rightarrow> Inr d))"

text \<open>Python's truth value of such an argument: \<^verbatim>\<open>None\<close> and the empty string are false.\<close>

definition truthy :: "date_arg option \<Rightarrow> bool" where
  "truthy v = (case v of None \<Rightarrow> False | Some (Str t) \<Rightarrow> t \<noteq> [] | Some (Date d) \<Rightarrow> True)"

definition date_or_today :: "pylib \<Rightarrow> date_arg option \<Rightarrow> date \<Rightarrow> py_error + date" where
  "date_or_today lib v today = (if truthy v then parse_date lib (the v) else Inr today)"

subsection \<open>URL normalisation (tc_market/url_utils.py)\<close>

definition text_of :: "string \<Rightarrow> ustring" where
  "text_of t = map of_char t"

definition startswith :: "'a list \<Rightarrow> 'a list \<Rightarrow> bool" where
  "startswith t p = (take (length p) t = p)"

definition TRACKING_PARAM_PREFIXES :: "ustring list" where
  "TRACKING_PARAM_PREFIXES = map text_of [''utm_'']"

definition TRACKING_PARAMS :: "ustring list" where
  "TRACKING_PARAMS = map text_of [''fbclid'', ''gclid'', ''igshid'', ''mc_cid'', ''mc_eid'', ''ref_src'']"

text \<open>The test that makes the loop of \<^verbatim>\<open>canonicalize_url\<close> skip a query item.\<close>

definition is_tracking :: "pylib \<Rightarrow> ustring \<Rightarrow> bool" where
  "is_tracking lib key =
     (let key_lower = py_lower_text lib key
      in key_lower \<in> set TRACKING_PARAMS \<or> list_ex (startswith key_lower) TRACKING_PARAM_PREFIXES)"

text \<open>\<^verbatim>\<open>t.rstrip("/")\<close>.\<close>

definition rstrip_slash :: "string \<Rightarrow> string" where
  "rstrip_slash t = rev (dropWhile (\<lambda>c. c = CHR ''/'') (rev t))"

text \<open>
  \<^verbatim>\<open>canonicalize_url\<close>. \<^verbatim>\<open>sorted\<close> orders the pairs of texts lexicographically by code
  point. An exception of \<^verbatim>\<open>urlparse\<close> or \<^verbatim>\<open>urlencode\<close> leaves the function.
\<close>

definition canonicalize_url :: "pylib \<Rightarrow> string \<Rightarrow> py_error + string" where
  "canonicalize_url lib url =
     (case py_urlparse lib (py_strip lib url) of
        Inl e \<Rightarrow> Inl e
      | Inr parsed \<Rightarrow>
          (let scheme = (if py_lower lib (pr_scheme parsed) = [] then ''https''
                         else py_lower lib (pr_scheme parsed));
               netloc0 = py_lower lib (pr_netloc parsed);
               netloc = (if startswith netloc0 ''www.'' then drop 4 netloc0 else netloc0);
               query_items = filter (\<lambda>kv. \<not> is_tracking lib (fst kv)) (py_parse_qsl lib (pr_query parsed))
           in case py_urlencode lib (sort query_items) of
                Inl e \<Rightarrow> Inl e
              | Inr query \<Rightarrow>
                  (let path = (if pr_path parsed = [] then ''/'' else pr_path parsed);
                       trimmed = (if rstrip_slash path = [] then ''/'' else rstrip_slash path)
                   in Inr (py_urlunparse lib (scheme, netloc, trimmed, [], query, [])))))"

definition extract_domain :: "pylib \<Rightarrow> string \<Rightarrow> py_error + string" where
  "extract_domain lib url =
     (case py_urlparse lib url of
        Inl e \<Rightarrow> Inl e
      | Inr parsed \<Rightarrow>
          (let host = py_lower lib (pr_netloc parsed)
           in Inr (if startswith host ''www.'' then drop 4 host else host)))"

subsection \<open>Users and chips\<close>

definition STARTING_CHIPS :: int where "STARTING_CHIPS = 100"
definition DAILY_CHIPS :: int where "DAILY_CHIPS = 10"
definition MAX_PICKS_PER_CYCLE :: nat where "MAX_PICKS_PER_CYCLE = 10"

definition get_user :: "ident \<Rightarrow> storage \<Rightarrow> py_error + user" where
  "get_user user_id s =
     (case find (\<lambda>u. u_id u = user_id) (users s) of None \<Rightarrow> Inl KeyError | Some u \<Rightarrow> Inr u)"

definition get_user_by_email :: "string \<Rightarrow> storage \<Rightarrow> user option" where
  "get_user_by_email email s = find (\<lambda>u. u_email u = email) (users s)"

definition user_exists :: "ident \<Rightarrow> storage \<Rightarrow> bool" where
  "user_exists user_id s = list_ex (\<lambda>u. u_id u = user_id) (users s)"

text \<open>
  \<^verbatim>\<open>create_user\<close>: one transaction inserting the user row with the starting chips and the
  \<^verbatim>\<open>signup_bonus\<close> ledger row. The insert raises on the primary key, on \<^verbatim>\<open>email UNIQUE\<close>, on
  \<^verbatim>\<open>google_sub UNIQUE\<close> (SQL nulls never clash) and on the \<^verbatim>\<open>CHECK\<close> of \<^verbatim>\<open>account_type\<close>.
\<close>

definition create_user ::
  "pylib \<Rightarrow> ident \<Rightarrow> string \<Rightarrow> string \<Rightarrow> date_arg option \<Rightarrow> string option \<Rightarrow> date \<Rightarrow> storage \<Rightarrow> user outcome" where
  "create_user lib user_id email account_type created_date google_sub today s =
     (case date_or_today lib created_date today of
        Inl e \<Rightarrow> (Inl e, s)
      | Inr created \<Rightarrow>
          if list_ex (\<lambda>u. u_id u = user_id \<or> u_email u = email \<or>
                          (google_sub \<noteq> None \<and> u_google_sub u = google_sub)) (users s)
             \<or> \<not> (account_type = ''HUMAN'' \<or> account_type = ''AI'')
          then (Inl IntegrityError, s)
          else
            (let s' = s\<lparr>users := users s @
                        [\<lparr>u_id = user_id, u_email = email, u_google_sub = google_sub,
                          u_account_type = account_type, u_current_chips = STARTING_CHIPS,
                          u_last_daily_credit_date = created\<rparr>],
                      chip_ledger := chip_ledger s @
                        [\<lparr>le_user_id = user_id, le_cycle_id = None,
                          le_event_type = ''signup_bonus'', le_chips_delta = STARTING_CHIPS\<rparr>]\<rparr>
             in (get_user user_id s', s')))"

text \<open>\<^verbatim>\<open>get_or_create_ai_user\<close>; \<open>new_id\<close> is the id drawn if the user has to be created.\<close>

definition get_or_create_ai_user :: "pylib \<Rightarrow> string \<Rightarrow> ident \<Rightarrow> date \<Rightarrow> storage \<Rightarrow> user outcome" where
  "get_or_create_ai_user lib model_id new_id today s =
     (let email = ''model:'' @ model_id @ ''@local'' in
      case get_user_by_email email s of
        Some existing \<Rightarrow> (Inr existing, s)
      | None \<Rightarrow> create_user lib new_id email ''AI'' None None today s)"

text \<open>
  \<^verbatim>\<open>credit_user_chips\<close>: one transaction; the \<^verbatim>\<open>UPDATE\<close> of the balance is skipped for a zero
  delta, the ledger row is always inserted, and its foreign key on \<^verbatim>\<open>users(id)\<close> makes the
  insert raise (rolling the update back) when there is no such user.
\<close>

definition add_chips :: "ident \<Rightarrow> int \<Rightarrow> user \<Rightarrow> user" where
  "add_chips user_id chips u =
     (if u_id u = user_id then u\<lparr>u_current_chips := u_current_chips u + chips\<rparr> else u)"

definition credit_user_chips ::
  "ident \<Rightarrow> int \<Rightarrow> string \<Rightarrow> ident option \<Rightarrow> storage \<Rightarrow> unit outcome" where
  "credit_user_chips user_id chips_delta event_type cycle_id s =
     (if user_exists user_id s
      then (Inr (),
            s\<lparr>users := (if chips_delta \<noteq> 0 then map (add_chips user_id chips_delta) (users s)
                         else users s),
              chip_ledger := chip_ledger s @
                [\<lparr>le_user_id = user_id, le_cycle_id = cycle_id,
                  le_event_type = event_type, le_chips_delta = chips_delta\<rparr>]\<rparr>)
      else (Inl IntegrityError, s))"

text \<open>
  \<^verbatim>\<open>apply_daily_faucet\<close>: the user rows are read first, then one transaction walks them;
  \<open>credited\<close> is the dictionary the method returns, in insertion order.
\<close>

definition faucet_step ::
  "date \<Rightarrow> (ident \<times> int) list \<times> storage \<Rightarrow> ident \<times> date \<Rightarrow> (ident \<times> int) list \<times> storage" where
  "faucet_step as_of acc row =
     (let credited = fst acc; s = snd acc; user_id = fst row; last_credit = snd row;
          missed_days = as_of - last_credit
      in if missed_days \<le> 0 then acc
         else
           (let chips = missed_days * DAILY_CHIPS in
            (AList.update user_id chips credited,
             s\<lparr>users := map (\<lambda>u. if u_id u = user_id
                                  then u\<lparr>u_current_chips := u_current_chips u + chips,
                                         u_last_daily_credit_date := as_of\<rparr>
                                  else u) (users s),
               chip_ledger := chip_ledger s @
                 [\<lparr>le_user_id = user_id, le_cycle_id = None,
                   le_event_type = ''daily_faucet'', le_chips_delta = chips\<rparr>]\<rparr>)))"

definition apply_daily_faucet ::
  "pylib \<Rightarrow> date_arg option \<Rightarrow> date \<Rightarrow> storage \<Rightarrow> (ident \<times> int) list outcome" where
  "apply_daily_faucet lib as_of_date today s =
     (case date_or_today lib as_of_date today of
        Inl e \<Rightarrow> (Inl e, s)
      | Inr as_of \<Rightarrow>
          (let rows = map (\<lambda>u. (u_id u, u_last_daily_credit_date u)) (users s);
               r = foldl (faucet_step as_of) ([], s) rows
           in (Inr (fst r), snd r)))"

subsection \<open>Cycles, candidates and picks\<close>

definition get_cycle :: "ident \<Rightarrow> storage \<Rightarrow> py_error + cycle" where
  "get_cycle cycle_id s =
     (case find (\<lambda>c. cy_id c = cycle_id) (cycles s) of None \<Rightarrow> Inl KeyError | Some c \<Rightarrow> Inr c)"

definition cycle_exists :: "ident \<Rightarrow> storage \<Rightarrow> bool" where
  "cycle_exists cycle_id s = list_ex (\<lambda>c. cy_id c = cycle_id) (cycles s)"

definition create_cycle ::
  "pylib \<Rightarrow> ident \<Rightarrow> date_arg option \<Rightarrow> date \<Rightarrow> timestamp \<Rightarrow> storage \<Rightarrow> cycle outcome" where
  "create_cycle lib cycle_id cycle_date today now s =
     (case date_or_today lib cycle_date today of
        Inl e \<Rightarrow> (Inl e, s)
      | Inr d \<Rightarrow>
          if cycle_exists cycle_id s then (Inl IntegrityError, s)
          else
            (let s' = s\<lparr>cycles := cycles s @
                        [\<lparr>cy_id = cycle_id, cy_cycle_date = d, cy_status = ''OPEN'',
                          cy_opened_at = now_iso now, cy_closed_at = None\<rparr>]\<rparr>
             in (get_cycle cycle_id s', s')))"

definition get_candidate :: "ident \<Rightarrow> storage \<Rightarrow> py_error + candidate_link" where
  "get_candidate candidate_id s =
     (case find (\<lambda>c. cl_id c = candidate_id) (candidate_links s) of
        None \<Rightarrow> Inl KeyError | Some c \<Rightarrow> Inr c)"

definition candidate_exists :: "ident \<Rightarrow> storage \<Rightarrow> bool" where
  "candidate_exists candidate_id s = list_ex (\<lambda>c. cl_id c = candidate_id) (candidate_links s)"

text \<open>
  \<^verbatim>\<open>create_candidate\<close>: the insert raises on the primary key, on
  \<^verbatim>\<open>UNIQUE(cycle_id, canonical_url)\<close> and on the foreign keys to the cycle and the user;
  the method then looks the row of that cycle and canonical URL up and returns it, and
  re-raises only when there is none.
\<close>

definition find_candidate_by_canonical :: "ident \<Rightarrow> string \<Rightarrow> storage \<Rightarrow> candidate_link option" where
  "find_candidate_by_canonical cycle_id canonical s =
     find (\<lambda>c. cl_cycle_id c = cycle_id \<and> cl_canonical_url c = canonical) (candidate_links s)"

definition create_candidate ::
  "pylib \<Rightarrow> ident \<Rightarrow> ident \<Rightarrow> ident \<Rightarrow> string \<Rightarrow> timestamp \<Rightarrow> storage \<Rightarrow> candidate_link outcome" where
  "create_candidate lib candidate_id cycle_id submitted_by_user_id url now s =
     (case canonicalize_url lib url of
        Inl e \<Rightarrow> (Inl e, s)
      | Inr canonical \<Rightarrow>
          (case extract_domain lib canonical of
             Inl e \<Rightarrow> (Inl e, s)
           | Inr domain \<Rightarrow>
               if candidate_exists candidate_id s
                  \<or> find_candidate_by_canonical cycle_id canonical s \<noteq> None
                  \<or> \<not> cycle_exists cycle_id s \<or> \<not> user_exists submitted_by_user_id s
               then (case find_candidate_by_canonical cycle_id canonical s of
                       None \<Rightarrow> (Inl IntegrityError, s)
                     | Some row \<Rightarrow> (Inr row, s))
               else
                 (let s' = s\<lparr>candidate_links := candidate_links s @
                             [\<lparr>cl_id = candidate_id, cl_cycle_id = cycle_id,
                               cl_submitted_by_user_id = submitted_by_user_id,
                               cl_original_url = url, cl_canonical_url = canonical,
                               cl_domain = domain, cl_created_at = now_iso now\<rparr>]\<rparr>
                  in (get_candidate candidate_id s', s'))))"

text \<open>
  The listing queries. \<^verbatim>\<open>ORDER BY\<close> is a stable sort of the rows in insertion order (what
  SQLite does for rows with equal keys is to keep the order of the scan).
\<close>

definition list_candidates :: "ident \<Rightarrow> storage \<Rightarrow> candidate_link list" where
  "list_candidates cycle_id s =
     sort_key cl_created_at (filter (\<lambda>c. cl_cycle_id c = cycle_id) (candidate_links s))"

definition list_user_picks :: "ident \<Rightarrow> ident \<Rightarrow> storage \<Rightarrow> pick list" where
  "list_user_picks cycle_id user_id s =
     sort_key pk_rank (filter (\<lambda>p. pk_cycle_id p = cycle_id \<and> pk_user_id p = user_id) (picks s))"

definition list_picks :: "ident \<Rightarrow> storage \<Rightarrow> pick list" where
  "list_picks cycle_id s =
     sort_key (\<lambda>p. (pk_picked_at p, pk_rank p)) (filter (\<lambda>p. pk_cycle_id p = cycle_id) (picks s))"

text \<open>
  \<^verbatim>\<open>Storage.set_ranked_picks\<close>: the three validations, then one transaction that deletes
  the user's picks of the cycle and inserts the new ones with ranks from 1; the inserts
  raise on the foreign keys.
\<close>

definition set_ranked_picks ::
  "ident \<Rightarrow> ident \<Rightarrow> ident list \<Rightarrow> timestamp \<Rightarrow> storage \<Rightarrow> pick list outcome" where
  "set_ranked_picks cycle_id user_id ids now s =
     (if length ids > MAX_PICKS_PER_CYCLE then (Inl ValueError, s)
      else if length (remdups ids) \<noteq> length ids then (Inl ValueError, s)
      else if ids \<noteq> [] \<and>
              length (filter (\<lambda>c. cl_cycle_id c = cycle_id \<and> cl_id c \<in> set ids) (candidate_links s))
                \<noteq> length ids
           then (Inl ValueError, s)
      else if ids \<noteq> [] \<and> (\<not> cycle_exists cycle_id s \<or> \<not> user_exists user_id s \<or>
                           \<not> list_all (\<lambda>i. candidate_exists i s) ids)
           then (Inl IntegrityError, s)
      else
        (let s' = s\<lparr>picks :=
                    filter (\<lambda>p. \<not> (pk_cycle_id p = cycle_id \<and> pk_user_id p = user_id)) (picks s) @
                    map (\<lambda>ic. \<lparr>pk_cycle_id = cycle_id, pk_user_id = user_id,
                                pk_candidate_id = snd ic, pk_rank = int (fst ic),
                                pk_picked_at = now_iso now\<rparr>) (enumerate 1 ids)\<rparr>
         in (Inr (list_user_picks cycle_id user_id s'), s')))"

subsection \<open>Market operations (tc_market/market.py)\<close>

definition RANK_REWARDS :: "(int \<times> int) list" where
  "RANK_REWARDS = [(1, 20), (2, 18), (3, 16), (4, 14), (5, 12), (6, 10), (7, 8), (8, 6), (9, 4), (10, 2)]"

definition RANK_WEIGHTS :: "(int \<times> int) list" where
  "RANK_WEIGHTS = [(1, 10), (2, 9), (3, 8), (4, 7), (5, 6), (6, 5), (7, 4), (8, 3), (9, 2), (10, 1)]"

text \<open>\<^verbatim>\<open>d.get(k, default)\<close> on a dictionary kept as an association list.\<close>

definition dict_get :: "('k \<times> 'v) list \<Rightarrow> 'k \<Rightarrow> 'v \<Rightarrow> 'v" where
  "dict_get d k dflt = (case map_of d k of None \<Rightarrow> dflt | Some v \<Rightarrow> v)"

text \<open>\<^verbatim>\<open>d[k] += v\<close> on a \<^verbatim>\<open>defaultdict(int)\<close>; a new key goes to the end.\<close>

definition dict_add :: "('k \<times> int) list \<Rightarrow> 'k \<Rightarrow> int \<Rightarrow> ('k \<times> int) list" where
  "dict_add d k v = AList.update k (dict_get d k 0 + v) d"

definition market_set_ranked_picks ::
  "ident \<Rightarrow> ident \<Rightarrow> ident list \<Rightarrow> timestamp \<Rightarrow> storage \<Rightarrow> pick list outcome" where
  "market_set_ranked_picks cycle_id user_id candidate_ids now s =
     (if length candidate_ids > MAX_PICKS_PER_CYCLE then (Inl ValueError, s)
      else set_ranked_picks cycle_id user_id candidate_ids now s)"

text \<open>
  \<^verbatim>\<open>compute_market_probabilities\<close>. The probability is a Python float; the model keeps
  the exact quotient of the two integers.
\<close>

record probability_row =
  pb_candidate_id :: ident
  pb_url :: string
  pb_domain :: string
  pb_rank_weight_score :: int
  pb_market_probability :: rat

definition rank_weight :: "int \<Rightarrow> int" where
  "rank_weight rank = dict_get RANK_WEIGHTS rank 1"

definition pick_weights :: "pick list \<Rightarrow> (ident \<times> int) list" where
  "pick_weights ps = foldl (\<lambda>weights p. dict_add weights (pk_candidate_id p) (rank_weight (pk_rank p))) [] ps"

text \<open>\<^verbatim>\<open>sorted(xs, key=f, reverse=True)\<close>: descending, equal keys in their original order.\<close>

definition sorted_desc :: "('a \<Rightarrow> 'k::linorder) \<Rightarrow> 'a list \<Rightarrow> 'a list" where
  "sorted_desc f xs = rev (sort_key f (rev xs))"

definition compute_market_probabilities :: "ident \<Rightarrow> storage \<Rightarrow> probability_row list" where
  "compute_market_probabilities cycle_id s =
     (let candidates = list_candidates cycle_id s;
          weights = pick_weights (list_picks cycle_id s);
          total_weight = sum_list (map snd weights);
          output = map (\<lambda>candidate.
                     (let score = dict_get weights (cl_id candidate) 0
                      in \<lparr>pb_candidate_id = cl_id candidate, pb_url = cl_original_url candidate,
                          pb_domain = cl_domain candidate, pb_rank_weight_score = score,
                          pb_market_probability =
                            (if total_weight > 0 then of_int score / of_int total_weight else 0)\<rparr>))
                     candidates
      in sorted_desc pb_market_probability output)"

text \<open>
  \<^verbatim>\<open>save_cycle_results\<close>: one transaction that replaces the result rows of the cycle by
  one row per candidate and sets the cycle to \<^verbatim>\<open>SETTLED\<close> with the close time.
\<close>

definition save_cycle_results ::
  "ident \<Rightarrow> ident list \<Rightarrow> timestamp \<Rightarrow> storage \<Rightarrow> unit outcome" where
  "save_cycle_results cycle_id winner_candidate_ids now s =
     (let candidate_rows = map cl_id (filter (\<lambda>c. cl_cycle_id c = cycle_id) (candidate_links s))
      in if candidate_rows \<noteq> [] \<and> (\<not> cycle_exists cycle_id s \<or> \<not> distinct candidate_rows)
         then (Inl IntegrityError, s)
         else (Inr (),
               s\<lparr>cycle_results :=
                   filter (\<lambda>r. cr_cycle_id r \<noteq> cycle_id) (cycle_results s) @
                   map (\<lambda>candidate_id. \<lparr>cr_cycle_id = cycle_id, cr_candidate_id = candidate_id,
                                          cr_is_winner = (candidate_id \<in> set winner_candidate_ids)\<rparr>)
                     candidate_rows,
                 cycles := map (\<lambda>c. if cy_id c = cycle_id
                                     then c\<lparr>cy_status := ''SETTLED'', cy_closed_at := Some (now_iso now)\<rparr>
                                     else c) (cycles s)\<rparr>))"

text \<open>
  \<^verbatim>\<open>settle_cycle\<close>, lines 72 to 82: the winner URLs are canonicalized (an exception of
  \<^verbatim>\<open>canonicalize_url\<close> leaves the method before anything is written) and matched with
  the candidates of the cycle. The source collects the canonical URLs in a Python set,
  whose iteration order is unspecified; the model takes them in order of first
  occurrence. That order shows only in the order of the returned id list.
\<close>

fun canonicalize_all :: "pylib \<Rightarrow> string list \<Rightarrow> py_error + string list" where
  "canonicalize_all lib [] = Inr []"
| "canonicalize_all lib (url # urls) =
     (case canonicalize_url lib url of
        Inl e \<Rightarrow> Inl e
      | Inr c \<Rightarrow> (case canonicalize_all lib urls of Inl e \<Rightarrow> Inl e | Inr cs \<Rightarrow> Inr (c # cs)))"

definition winner_ids :: "candidate_link list \<Rightarrow> string list \<Rightarrow> ident list" where
  "winner_ids candidates canonicals =
     (let candidate_by_canonical = map_of (rev (map (\<lambda>c. (cl_canonical_url c, c)) candidates))
      in concat (map (\<lambda>canonical. case candidate_by_canonical canonical of
                                     None \<Rightarrow> [] | Some candidate \<Rightarrow> [cl_id candidate])
                   (rev (remdups (rev canonicals)))))"

text \<open>Lines 85 to 99: the participants in order of their first pick, rewards and hits per user.\<close>

record tally =
  participant_ids :: "ident list"
  user_rewards :: "(ident \<times> int) list"
  user_hits :: "(ident \<times> int) list"

definition tally_pick :: "ident list \<Rightarrow> tally \<Rightarrow> pick \<Rightarrow> tally" where
  "tally_pick winner_set t p =
     (let t1 = (if pk_user_id p \<notin> set (participant_ids t)
                then t\<lparr>participant_ids := participant_ids t @ [pk_user_id p]\<rparr> else t)
      in if pk_candidate_id p \<in> set winner_set
         then t1\<lparr>user_rewards := dict_add (user_rewards t1) (pk_user_id p)
                                   (dict_get RANK_REWARDS (pk_rank p) 0),
                 user_hits := dict_add (user_hits t1) (pk_user_id p) 1\<rparr>
         else t1)"

definition tally_picks :: "ident list \<Rightarrow> pick list \<Rightarrow> tally" where
  "tally_picks winner_set ps =
     foldl (tally_pick winner_set) \<lparr>participant_ids = [], user_rewards = [], user_hits = []\<rparr> ps"

text \<open>Lines 101 to 110: one \<^verbatim>\<open>credit_user_chips\<close> transaction per user with a positive reward.\<close>

fun credit_rewards :: "ident \<Rightarrow> (ident \<times> int) list \<Rightarrow> storage \<Rightarrow> unit outcome" where
  "credit_rewards cycle_id [] s = (Inr (), s)"
| "credit_rewards cycle_id ((user_id, reward) # rest) s =
     (if reward \<le> 0 then credit_rewards cycle_id rest s
      else bind (credit_user_chips user_id reward ''prediction_reward'' (Some cycle_id) s)
             (\<lambda>_. credit_rewards cycle_id rest))"

text \<open>Lines 112 to 139: the leaderboard.\<close>

record settlement_entry =
  se_user_id :: ident
  se_correct_count :: int
  se_reward_chips :: int
  se_rank :: int

record ranking_entry =
  re_user_id :: ident
  re_correct_count :: int
  re_reward_chips :: int

definition score_key :: "ranking_entry \<Rightarrow> int \<times> int" where
  "score_key row = (re_reward_chips row, re_correct_count row)"

fun assign_ranks :: "int \<Rightarrow> int \<Rightarrow> (int \<times> int) option \<Rightarrow> ranking_entry list \<Rightarrow> settlement_entry list" where
  "assign_ranks idx current_rank previous_score_key [] = []"
| "assign_ranks idx current_rank previous_score_key (row # rows) =
     (let changed = (Some (score_key row) \<noteq> previous_score_key);
          current_rank' = (if changed then idx else current_rank);
          previous_score_key' = (if changed then Some (score_key row) else previous_score_key)
      in \<lparr>se_user_id = re_user_id row, se_correct_count = re_correct_count row,
           se_reward_chips = re_reward_chips row, se_rank = current_rank'\<rparr>
         # assign_ranks (idx + 1) current_rank' previous_score_key' rows)"

definition rank_entries :: "ranking_entry list \<Rightarrow> settlement_entry list" where
  "rank_entries ranking_entries = assign_ranks 1 0 None (sorted_desc score_key ranking_entries)"

definition ranking :: "tally \<Rightarrow> settlement_entry list" where
  "ranking t =
     rank_entries (map (\<lambda>user_id. \<lparr>re_user_id = user_id,
                                    re_correct_count = dict_get (user_hits t) user_id 0,
                                    re_reward_chips = dict_get (user_rewards t) user_id 0\<rparr>)
                     (participant_ids t))"

record settlement =
  st_cycle_id :: ident
  st_winner_candidate_ids :: "ident list"
  st_winner_count :: nat
  st_ranking :: "settlement_entry list"

definition settle_cycle :: "pylib \<Rightarrow> ident \<Rightarrow> string list \<Rightarrow> timestamp \<Rightarrow> storage \<Rightarrow> settlement outcome" where
  "settle_cycle lib cycle_id winner_urls now s =
     (case canonicalize_all lib winner_urls of
        Inl e \<Rightarrow> (Inl e, s)
      | Inr canonicals \<Rightarrow>
          (let winner_candidate_ids = winner_ids (list_candidates cycle_id s) canonicals
           in bind (save_cycle_results cycle_id winner_candidate_ids now s)
                (\<lambda>_ s1.
                   (let t = tally_picks winner_candidate_ids (list_picks cycle_id s1)
                    in bind (credit_rewards cycle_id (user_rewards t) s1)
                         (\<lambda>_ s2.
                            (Inr \<lparr>st_cycle_id = cycle_id,
                                   st_winner_candidate_ids = winner_candidate_ids,
                                   st_winner_count = length winner_candidate_ids,
                                   st_ranking = ranking t\<rparr>, s2))))))"

text \<open>
  The storages that a run of \<^verbatim>\<open>settle_cycle\<close> commits, in order: the one after
  \<^verbatim>\<open>save_cycle_results\<close>, then one after each \<^verbatim>\<open>credit_user_chips\<close>. When the run is cut
  short (an exception from the database, the process stopped), what is left is the
  storage it started from or one of these.
\<close>

fun credit_commits :: "ident \<Rightarrow> (ident \<times> int) list \<Rightarrow> storage \<Rightarrow> storage list" where
  "credit_commits cycle_id [] s = []"
| "credit_commits cycle_id ((user_id, reward) # rest) s =
     (if reward \<le> 0 then credit_commits cycle_id rest s
      else (case credit_user_chips user_id reward ''prediction_reward'' (Some cycle_id) s of
              (Inl e, s') \<Rightarrow> []
            | (Inr u, s') \<Rightarrow> s' # credit_commits cycle_id rest s'))"

definition settle_cycle_commits :: "pylib \<Rightarrow> ident \<Rightarrow> string list \<Rightarrow> timestamp \<Rightarrow> storage \<Rightarrow> storage list" where
  "settle_cycle_commits lib cycle_id winner_urls now s =
     (case canonicalize_all lib winner_urls of
        Inl e \<Rightarrow> []
      | Inr canonicals \<Rightarrow>
          (let winner_candidate_ids = winner_ids (list_candidates cycle_id s) canonicals
           in case save_cycle_results cycle_id winner_candidate_ids now s of
                (Inl e, s') \<Rightarrow> []
              | (Inr u, s1) \<Rightarrow>
                  s1 # credit_commits cycle_id
                         (user_rewards (tally_picks winner_candidate_ids (list_picks cycle_id s1))) s1))"

subsection \<open>Curation rewards\<close>

definition CURATION_RANK_REWARDS :: "(int \<times> int) list" where
  "CURATION_RANK_REWARDS = [(1, 40), (2, 20), (3, 10)]"

definition has_curation_rewards :: "ident \<Rightarrow> storage \<Rightarrow> bool" where
  "has_curation_rewards cycle_id s =
     (length (filter (\<lambda>r. cu_cycle_id r = cycle_id) (curation_rewards s)) > 0)"

text \<open>
  The query of \<^verbatim>\<open>compute_curation_reward_rows\<close>: the candidates of the cycle joined with
  their click events, grouped by submitter, groups without a click dropped, ordered by
  clicks descending and user id ascending.
\<close>

definition click_counts :: "ident \<Rightarrow> storage \<Rightarrow> (ident \<times> int) list" where
  "click_counts cycle_id s =
     (let cands = filter (\<lambda>c. cl_cycle_id c = cycle_id) (candidate_links s);
          clicks = (\<lambda>c. int (length (filter (\<lambda>e. ce_candidate_id e = cl_id c) (click_events s))));
          groups = map (\<lambda>u. (u, sum_list (map clicks (filter (\<lambda>c. cl_submitted_by_user_id c = u) cands))))
                     (remdups (map cl_submitted_by_user_id cands))
      in sort_key (\<lambda>row. (- snd row, fst row)) (filter (\<lambda>row. snd row > 0) groups))"

text \<open>
  \<^verbatim>\<open>round(total_pool / len(tie_group))\<close>: Python rounds the quotient to the nearest integer
  and a half to the even one. The pool is at most 70, so the float quotient is a half
  exactly when the exact quotient is, for every group of fewer than \<open>2\<^sup>5\<^sup>0\<close> users.
\<close>

definition py_round_div :: "int \<Rightarrow> int \<Rightarrow> int" where
  "py_round_div p n =
     (let q = p div n; r = p mod n
      in if 2 * r < n then q else if 2 * r > n then q + 1 else if even q then q else q + 1)"

record reward_row =
  rr_user_id :: ident
  rr_rank :: int
  rr_unique_clicks :: int
  rr_reward_chips :: int

text \<open>
  The \<^verbatim>\<open>while\<close> loop of \<^verbatim>\<open>compute_curation_reward_rows\<close>, on the rows not yet consumed:
  the tie group is the longest run of rows with the click count of the first one.
\<close>

definition max_rank :: int where
  "max_rank = Max (set (map fst CURATION_RANK_REWARDS))"

function curation_walk :: "int \<Rightarrow> (ident \<times> int) list \<Rightarrow> reward_row list" where
  "curation_walk next_rank [] = []"
| "curation_walk next_rank (row # rows) =
     (if \<not> next_rank \<le> max_rank then []
      else
        (let click_count = snd row;
             tie_group = row # takeWhile (\<lambda>r. snd r = click_count) rows;
             start_rank = next_rank;
             end_rank = min (start_rank + int (length tie_group) - 1) max_rank;
             eligible_positions = filter (\<lambda>rank. map_of CURATION_RANK_REWARDS rank \<noteq> None)
                                    [start_rank..end_rank]
         in if eligible_positions = [] then []
            else
              (let total_pool = sum_list (map (\<lambda>rank. the (map_of CURATION_RANK_REWARDS rank))
                                            eligible_positions);
                   split_reward = py_round_div total_pool (int (length tie_group))
               in map (\<lambda>r. \<lparr>rr_user_id = fst r, rr_rank = start_rank,
                             rr_unique_clicks = click_count, rr_reward_chips = split_reward\<rparr>)
                    tie_group
                  @ curation_walk (next_rank + int (length tie_group))
                      (dropWhile (\<lambda>r. snd r = click_count) rows))))"
  by pat_completeness auto
termination
  by (relation "measure (\<lambda>(next_rank, rows). length rows)")
     (auto simp: length_dropWhile_le less_Suc_eq_le)

definition compute_curation_reward_rows :: "ident \<Rightarrow> storage \<Rightarrow> reward_row list" where
  "compute_curation_reward_rows cycle_id s = curation_walk 1 (click_counts cycle_id s)"

text \<open>
  \<^verbatim>\<open>Storage.apply_curation_rewards\<close>. The loop runs inside \<^verbatim>\<open>with self.conn:\<close>, and the
  \<^verbatim>\<open>credit_user_chips\<close> it calls ends its own \<^verbatim>\<open>with self.conn:\<close> on the same connection,
  which commits: each round of the loop (the reward row, the balance and the ledger row)
  is committed as it ends. The insert of the reward row raises on
  \<^verbatim>\<open>PRIMARY KEY(cycle_id, user_id)\<close> and on the foreign keys.
\<close>

fun award_rows :: "ident \<Rightarrow> reward_row list \<Rightarrow> storage \<Rightarrow> unit outcome" where
  "award_rows cycle_id [] s = (Inr (), s)"
| "award_rows cycle_id (row # rows) s =
     (if list_ex (\<lambda>r. cu_cycle_id r = cycle_id \<and> cu_user_id r = rr_user_id row) (curation_rewards s)
         \<or> \<not> cycle_exists cycle_id s \<or> \<not> user_exists (rr_user_id row) s
      then (Inl IntegrityError, s)
      else
        (case credit_user_chips (rr_user_id row) (rr_reward_chips row) ''curation_reward'' (Some cycle_id)
                (s\<lparr>curation_rewards := curation_rewards s @
                     [\<lparr>cu_cycle_id = cycle_id, cu_user_id = rr_user_id row, cu_rank = rr_rank row,
                       cu_unique_clicks = rr_unique_clicks row,
                       cu_reward_chips = rr_reward_chips row\<rparr>]\<rparr>) of
           (Inl e, s') \<Rightarrow> (Inl e, s)
         | (Inr u, s') \<Rightarrow> award_rows cycle_id rows s'))"

definition apply_curation_rewards :: "ident \<Rightarrow> storage \<Rightarrow> reward_row list outcome" where
  "apply_curation_rewards cycle_id s =
     (if has_curation_rewards cycle_id s then (Inr [], s)
      else
        (let reward_rows = compute_curation_reward_rows cycle_id s
         in if reward_rows = [] then (Inr [], s)
            else bind (award_rows cycle_id reward_rows s) (\<lambda>_ s'. (Inr reward_rows, s'))))"

text \<open>
  \<^verbatim>\<open>MarketService.apply_curation_rewards\<close>. \<open>now\<close> is \<^verbatim>\<open>datetime.now(timezone.utc)\<close>, and
  \<^verbatim>\<open>timedelta(hours=h)\<close> is \<open>h\<close> times 3600 million microseconds. A stored \<^verbatim>\<open>closed_at\<close> is
  never the empty string, so it is true in Python exactly when it is not null.
\<close>

record curation_report =
  rp_awarded :: bool
  rp_reason :: string
  rp_rows :: "reward_row list"

definition market_apply_curation_rewards ::
  "ident \<Rightarrow> int \<Rightarrow> bool \<Rightarrow> timestamp \<Rightarrow> storage \<Rightarrow> curation_report outcome" where
  "market_apply_curation_rewards cycle_id min_age_hours force now s =
     (case get_cycle cycle_id s of
        Inl e \<Rightarrow> (Inl e, s)
      | Inr cycle \<Rightarrow>
          if cy_status cycle \<noteq> ''SETTLED''
          then (Inr \<lparr>rp_awarded = False, rp_reason = ''cycle_not_settled'', rp_rows = []\<rparr>, s)
          else if \<not> force \<and> cy_closed_at cycle \<noteq> None \<and>
                  now - the (cy_closed_at cycle) < min_age_hours * 3600000000
          then (Inr \<lparr>rp_awarded = False, rp_reason = ''wait_window'', rp_rows = []\<rparr>, s)
          else bind (apply_curation_rewards cycle_id s)
                 (\<lambda>rs s'. if rs = []
                    then (Inr \<lparr>rp_awarded = False, rp_reason = ''none_or_already_awarded'', rp_rows = []\<rparr>, s')
                    else (Inr \<lparr>rp_awarded = True, rp_reason = ''ok'', rp_rows = rs\<rparr>, s')))"

text \<open>
  \<^verbatim>\<open>record_click\<close>: a click of the submitter is not counted, and an insert that raises
  (a second click of the fingerprint on the candidate, a foreign key) is reported as a
  duplicate. The SHA-256 of the fingerprint source is taken as given.
\<close>

datatype click_report = Counted | Self_click | Duplicate

definition record_click :: "ident \<Rightarrow> string \<Rightarrow> ident option \<Rightarrow> storage \<Rightarrow> click_report outcome" where
  "record_click candidate_id fingerprint_hash clicked_by_user_id s =
     (case find (\<lambda>c. cl_id c = candidate_id) (candidate_links s) of
        None \<Rightarrow> (Inl KeyError, s)
      | Some candidate \<Rightarrow>
          if clicked_by_user_id \<noteq> None \<and> clicked_by_user_id \<noteq> Some [] \<and>
             clicked_by_user_id = Some (cl_submitted_by_user_id candidate)
          then (Inr Self_click, s)
          else if list_ex (\<lambda>e. ce_candidate_id e = candidate_id \<and> ce_fingerprint_hash e = fingerprint_hash)
                    (click_events s)
                  \<or> \<not> cycle_exists (cl_cycle_id candidate) s
                  \<or> (clicked_by_user_id \<noteq> None \<and> \<not> user_exists (the clicked_by_user_id) s)
          then (Inr Duplicate, s)
          else (Inr Counted,
                s\<lparr>click_events := click_events s @
                    [\<lparr>ce_cycle_id = cl_cycle_id candidate, ce_candidate_id = candidate_id,
                      ce_fingerprint_hash = fingerprint_hash\<rparr>]\<rparr>))"

subsection \<open>Model agents (tc_market/model_agents.py)\<close>

text \<open>
  Probabilities are Python floats in the source and exact rationals here. A strategy is
  the pair of methods of a \<^verbatim>\<open>ModelStrategy\<close>; the dictionary \<^verbatim>\<open>predict_probabilities\<close> returns
  is an association list with one entry per key. The default strategy scores by SHA-256
  and the plugins are loaded by name at run time, so the runner carries both: its default
  strategy, and what importing and instantiating a \<^verbatim>\<open>module:Class\<close> text gives.
\<close>

record model_agent_config =
  mc_id :: string
  mc_provider :: string
  mc_model_name :: string
  mc_enabled :: bool
  mc_strategy_profile :: string
  mc_max_daily_picks :: int
  mc_temperature :: rat
  mc_strategy_plugin :: "string option"

record model_strategy =
  predict_probabilities :: "model_agent_config \<Rightarrow> candidate_link list \<Rightarrow> (ident \<times> rat) list"
  explain_choice :: "model_agent_config \<Rightarrow> candidate_link \<Rightarrow> rat \<Rightarrow> bool \<Rightarrow> string"

record model_runner =
  rn_configs :: "model_agent_config list"
  rn_default_strategy :: model_strategy
  rn_plugins :: "string \<Rightarrow> py_error + model_strategy"

definition load_strategy :: "model_runner \<Rightarrow> model_agent_config \<Rightarrow> py_error + model_strategy" where
  "load_strategy rn config =
     (case mc_strategy_plugin config of
        None \<Rightarrow> Inr (rn_default_strategy rn)
      | Some plugin \<Rightarrow>
          if plugin = [] then Inr (rn_default_strategy rn)
          else if CHR '':'' \<notin> set plugin then Inl ValueError
          else rn_plugins rn plugin)"

text \<open>\<^verbatim>\<open>_normalize_probabilities\<close>.\<close>

definition setdefault_zero :: "(ident \<times> rat) list \<Rightarrow> candidate_link \<Rightarrow> (ident \<times> rat) list" where
  "setdefault_zero probs candidate =
     (if map_of probs (cl_id candidate) = None then probs @ [(cl_id candidate, 0)] else probs)"

definition normalize_probabilities ::
  "(ident \<times> rat) list \<Rightarrow> candidate_link list \<Rightarrow> (ident \<times> rat) list" where
  "normalize_probabilities probs candidates =
     (let safe_scores = map (\<lambda>kv. (fst kv, max 0 (snd kv))) (foldl setdefault_zero probs candidates);
          total = sum_list (map snd safe_scores)
      in if total \<le> 0
         then (let uniform = (if candidates \<noteq> [] then 1 / of_nat (length candidates) else 0)
               in map (\<lambda>candidate. (cl_id candidate, uniform)) candidates)
         else map (\<lambda>candidate. (cl_id candidate, dict_get safe_scores (cl_id candidate) 0 / total))
                candidates)"

text \<open>
  \<^verbatim>\<open>upsert_model_prediction\<close>: one transaction; the row of the same cycle, model and
  candidate is overwritten in place, a new one appended, and the foreign keys checked.
\<close>

definition upsert_model_prediction ::
  "ident \<Rightarrow> ident \<Rightarrow> ident \<Rightarrow> rat \<Rightarrow> string \<Rightarrow> storage \<Rightarrow> unit outcome" where
  "upsert_model_prediction cycle_id model_user_id candidate_id probability explanation s =
     (let same = (\<lambda>r. mp_cycle_id r = cycle_id \<and> mp_model_user_id r = model_user_id \<and>
                       mp_candidate_id r = candidate_id);
          row = \<lparr>mp_cycle_id = cycle_id, mp_model_user_id = model_user_id,
                  mp_candidate_id = candidate_id, mp_probability = probability,
                  mp_explanation = explanation\<rparr>
      in if \<not> cycle_exists cycle_id s \<or> \<not> user_exists model_user_id s \<or>
            \<not> candidate_exists candidate_id s
         then (Inl IntegrityError, s)
         else if list_ex same (model_predictions s)
         then (Inr (), s\<lparr>model_predictions := map (\<lambda>r. if same r then row else r) (model_predictions s)\<rparr>)
         else (Inr (), s\<lparr>model_predictions := model_predictions s @ [row]\<rparr>))"

definition list_model_predictions :: "ident \<Rightarrow> ident \<Rightarrow> storage \<Rightarrow> model_prediction list" where
  "list_model_predictions cycle_id model_user_id s =
     sorted_desc mp_probability
       (filter (\<lambda>r. mp_cycle_id r = cycle_id \<and> mp_model_user_id r = model_user_id) (model_predictions s))"

record prediction_row =
  pd_candidate_id :: ident
  pd_probability :: rat
  pd_explanation :: string
  pd_selected :: bool

record model_report =
  mr_model_user_id :: ident
  mr_selected_count :: nat
  mr_predictions :: "prediction_row list"

text \<open>
  The loop of \<^verbatim>\<open>run_cycle\<close> over the candidates (lines 156 to 184), in creation order:
  the explanation is asked for, a blank one for a selected candidate raises
  \<^verbatim>\<open>ValueError\<close>, otherwise the prediction is upserted, which commits it.
\<close>

fun persist_predictions ::
  "pylib \<Rightarrow> model_strategy \<Rightarrow> model_agent_config \<Rightarrow> ident \<Rightarrow> ident \<Rightarrow> (ident \<times> rat) list \<Rightarrow> ident list \<Rightarrow>
   candidate_link list \<Rightarrow> storage \<Rightarrow> prediction_row list outcome" where
  "persist_predictions lib strategy config cycle_id model_user_id probabilities selected_ids [] s = (Inr [], s)"
| "persist_predictions lib strategy config cycle_id model_user_id probabilities selected_ids (candidate # rest) s =
     (let selected = (cl_id candidate \<in> set selected_ids);
          probability = dict_get probabilities (cl_id candidate) 0;
          explanation = explain_choice strategy config candidate probability selected
      in if selected \<and> py_strip lib explanation = [] then (Inl ValueError, s)
         else bind (upsert_model_prediction cycle_id model_user_id (cl_id candidate) probability explanation s)
                (\<lambda>_ s1. bind (persist_predictions lib strategy config cycle_id model_user_id probabilities
                                 selected_ids rest s1)
                   (\<lambda>model_rows s2.
                      (Inr (\<lparr>pd_candidate_id = cl_id candidate, pd_probability = probability,
                              pd_explanation = explanation, pd_selected = selected\<rparr> # model_rows), s2))))"

text \<open>
  The body of the loop over the configurations (lines 136 to 191) for one enabled
  configuration. \<open>new_id\<close> is the id drawn if the agent's user has to be created.
\<close>

definition run_config ::
  "pylib \<Rightarrow> model_runner \<Rightarrow> ident \<Rightarrow> candidate_link list \<Rightarrow> ident \<Rightarrow> date \<Rightarrow> timestamp \<Rightarrow>
   model_agent_config \<Rightarrow> storage \<Rightarrow> model_report outcome" where
  "run_config lib rn cycle_id candidates new_id today now config s =
     bind (get_or_create_ai_user lib (mc_id config) new_id today s)
       (\<lambda>model_user s1.
          case load_strategy rn config of
            Inl e \<Rightarrow> (Inl e, s1)
          | Inr strategy \<Rightarrow>
              (let probabilities = normalize_probabilities
                                     (predict_probabilities strategy config candidates) candidates;
                   ranked_candidates = sorted_desc (\<lambda>candidate. dict_get probabilities (cl_id candidate) 0)
                                         candidates;
                   pick_cap = max 0 (min (mc_max_daily_picks config)
                                       (min (int MAX_PICKS_PER_CYCLE) (int (length ranked_candidates))));
                   selected_ids = map cl_id (take (nat pick_cap) ranked_candidates)
               in bind (market_set_ranked_picks cycle_id (u_id model_user) selected_ids now s1)
                    (\<lambda>_ s2.
                       bind (persist_predictions lib strategy config cycle_id (u_id model_user)
                               probabilities selected_ids candidates s2)
                         (\<lambda>model_rows s3.
                            (Inr \<lparr>mr_model_user_id = u_id model_user,
                                   mr_selected_count = length selected_ids,
                                   mr_predictions = sorted_desc pd_probability model_rows\<rparr>, s3)))))"

fun run_configs ::
  "pylib \<Rightarrow> model_runner \<Rightarrow> ident \<Rightarrow> candidate_link list \<Rightarrow> (string \<Rightarrow> ident) \<Rightarrow> date \<Rightarrow> timestamp \<Rightarrow>
   model_agent_config list \<Rightarrow> (string \<times> model_report) list \<Rightarrow> storage \<Rightarrow>
   (string \<times> model_report) list outcome" where
  "run_configs lib rn cycle_id candidates new_ids today now [] output s = (Inr output, s)"
| "run_configs lib rn cycle_id candidates new_ids today now (config # rest) output s =
     (if \<not> mc_enabled config then run_configs lib rn cycle_id candidates new_ids today now rest output s
      else bind (run_config lib rn cycle_id candidates (new_ids (mc_id config)) today now config s)
             (\<lambda>report s'. run_configs lib rn cycle_id candidates new_ids today now rest
                             (AList.update (mc_id config) report output) s'))"

definition run_cycle ::
  "pylib \<Rightarrow> model_runner \<Rightarrow> ident \<Rightarrow> (string \<Rightarrow> ident) \<Rightarrow> date \<Rightarrow> timestamp \<Rightarrow> storage \<Rightarrow>
   (string \<times> model_report) list outcome" where
  "run_cycle lib rn cycle_id new_ids today now s =
     (let candidates = list_candidates cycle_id s
      in if candidates = [] then (Inr [], s)
         else run_configs lib rn cycle_id candidates new_ids today now (rn_configs rn) [] s)"

text \<open>
  A plugin as \<^verbatim>\<open>tests/plugins.py\<close> has it, except that it scores the candidates by their
  place in the list (1, 3, 0, 0, ...) instead of uniformly: no explanation for a selected
  candidate, \<^verbatim>\<open>not selected\<close> for the others. And a runner with one configuration that
  names it and picks one candidate.
\<close>

definition second_first_strategy :: model_strategy where
  "second_first_strategy =
     \<lparr>predict_probabilities = (\<lambda>config candidates.
         map (\<lambda>ic. (cl_id (snd ic), if fst ic = 0 then 1 else if fst ic = 1 then 3 else 0))
           (enumerate 0 candidates)),
       explain_choice = (\<lambda>config candidate probability selected.
         if selected then [] else ''not selected'')\<rparr>"

definition bad_model_runner :: model_runner where
  "bad_model_runner =
     \<lparr>rn_configs = [\<lparr>mc_id = ''bad-model'', mc_provider = ''local'', mc_model_name = ''bad'',
                      mc_enabled = True, mc_strategy_profile = ''default'', mc_max_daily_picks = 1,
                      mc_temperature = 1 / 5,
                      mc_strategy_plugin = Some ''tests.plugins:SecondFirstStrategy''\<rparr>],
       rn_default_strategy = second_first_strategy,
       rn_plugins = (\<lambda>name. if name = ''tests.plugins:SecondFirstStrategy''
                               then Inr second_first_strategy else Inl ImportError)\<rparr>"

subsection \<open>Jobs (tc_market/jobs.py)\<close>

text \<open>
  What a job method returns: the skip with its reason and run key, or the run key with
  what the job produced.
\<close>

datatype 'a job_report = Skipped string string | Executed string 'a

text \<open>
  \<^verbatim>\<open>JobService.run_daily_faucet\<close>. \<open>today_iso\<close> is \<^verbatim>\<open>date.today().isoformat()\<close>. The condition
  \<^verbatim>\<open>not force and not claim_job_run(...)\<close> does not evaluate the claim when \<open>force\<close> is set.
\<close>

definition run_daily_faucet ::
  "pylib \<Rightarrow> string option \<Rightarrow> bool \<Rightarrow> string \<Rightarrow> date \<Rightarrow> storage \<Rightarrow> (ident \<times> int) list job_report outcome" where
  "run_daily_faucet lib as_of_date force today_iso today s =
     (let run_date = (case as_of_date of None \<Rightarrow> today_iso
                      | Some d \<Rightarrow> if d = [] then today_iso else d);
          run_key = run_date;
          claim = (if force then (True, s) else claim_job_run ''daily_faucet'' run_key s)
      in if \<not> force \<and> \<not> fst claim
         then (Inr (Skipped ''already_ran'' run_key), snd claim)
         else bind (apply_daily_faucet lib (Some (Str run_date)) today (snd claim))
                (\<lambda>credited s'. (Inr (Executed run_key credited), s')))"

subsection \<open>The library of the examples\<close>

text \<open>
  The examples below need a library to run on. This is CPython 3.11.10's, written out
  from its sources for texts whose characters are those of Latin-1 (the characters the
  type \<open>char\<close> holds, by their code).
\<close>

text \<open>\<^verbatim>\<open>str.strip\<close> and \<^verbatim>\<open>str.lower\<close>: the white space and the capitals of Latin-1.\<close>

definition is_space :: "char \<Rightarrow> bool" where
  "is_space c =
     (let n = (of_char c :: nat)
      in (9 \<le> n \<and> n \<le> 13) \<or> (28 \<le> n \<and> n \<le> 32) \<or> n = 133 \<or> n = 160)"

definition strip :: "string \<Rightarrow> string" where
  "strip t = rev (dropWhile is_space (rev (dropWhile is_space t)))"

definition is_alpha :: "char \<Rightarrow> bool" where
  "is_alpha c = ((CHR ''a'' \<le> c \<and> c \<le> CHR ''z'') \<or> (CHR ''A'' \<le> c \<and> c \<le> CHR ''Z''))"

definition lower_code :: "nat \<Rightarrow> nat" where
  "lower_code n = (if (65 \<le> n \<and> n \<le> 90) \<or> (192 \<le> n \<and> n \<le> 222 \<and> n \<noteq> 215) then n + 32 else n)"

definition lower_char :: "char \<Rightarrow> char" where
  "lower_char c = char_of (lower_code (of_char c))"

definition lower :: "string \<Rightarrow> string" where
  "lower t = map lower_char t"

text \<open>
  On a decoded text, whose code points may lie above Latin-1: of those, only the Kelvin
  sign folds to a text of ASCII characters, so that this folding and \<^verbatim>\<open>str.lower\<close> agree
  on which keys are tracking parameters; the others are left as they are.
\<close>

definition lower_text :: "ustring \<Rightarrow> ustring" where
  "lower_text t = map (\<lambda>n. if n = 8490 then 107 else lower_code n) t"

text \<open>\<^verbatim>\<open>t.split(c, 1)\<close>: the text before the first \<open>c\<close>, and the text after it if there is one.\<close>

definition split_once :: "char \<Rightarrow> string \<Rightarrow> string \<times> string option" where
  "split_once c t =
     (if c \<in> set t then (takeWhile (\<lambda>x. x \<noteq> c) t, Some (tl (dropWhile (\<lambda>x. x \<noteq> c) t)))
      else (t, None))"

text \<open>\<^verbatim>\<open>t.split(c)\<close>.\<close>

fun split_on :: "char \<Rightarrow> string \<Rightarrow> string list" where
  "split_on c [] = [[]]"
| "split_on c (x # xs) =
     (if x = c then [] # split_on c xs
      else (case split_on c xs of w # ws \<Rightarrow> (x # w) # ws | [] \<Rightarrow> [[x]]))"

fun join :: "string \<Rightarrow> string list \<Rightarrow> string" where
  "join sep [] = []"
| "join sep [x] = x"
| "join sep (x # y # ys) = x @ sep @ join sep (y # ys)"

definition is_digit :: "char \<Rightarrow> bool" where
  "is_digit c = (CHR ''0'' \<le> c \<and> c \<le> CHR ''9'')"

definition is_scheme_char :: "char \<Rightarrow> bool" where
  "is_scheme_char c = (is_alpha c \<or> is_digit c \<or> c = CHR ''+'' \<or> c = CHR ''-'' \<or> c = CHR ''.'')"

definition uses_params :: "string list" where
  "uses_params = [[], ''ftp'', ''hdl'', ''prospero'', ''http'', ''imap'', ''https'', ''shttp'',
     ''rtsp'', ''rtspu'', ''sip'', ''sips'', ''mms'', ''sftp'', ''tel'']"

definition uses_netloc :: "string list" where
  "uses_netloc = [[], ''ftp'', ''http'', ''gopher'', ''nntp'', ''telnet'', ''imap'', ''wais'',
     ''file'', ''mms'', ''https'', ''shttp'', ''snews'', ''prospero'', ''rtsp'', ''rtspu'',
     ''rsync'', ''svn'', ''svn+ssh'', ''sftp'', ''nfs'', ''git'', ''git+ssh'', ''ws'', ''wss'',
     ''itms-services'']"

definition hex_val :: "char \<Rightarrow> nat option" where
  "hex_val c =
     (if is_digit c then Some (of_char c - 48)
      else if CHR ''a'' \<le> c \<and> c \<le> CHR ''f'' then Some (of_char c - 87)
      else if CHR ''A'' \<le> c \<and> c \<le> CHR ''F'' then Some (of_char c - 55)
      else None)"

text \<open>
  The text between the square brackets of a network location is checked by
  \<^verbatim>\<open>_check_bracketed_host\<close>: a text that starts with \<^verbatim>\<open>v\<close> has to match
  \<^verbatim>\<open>v[a-fA-F0-9]+\..+\<close> (where the dot of the pattern does not match a line feed), any
  other has to be an IPv6 address as \<^verbatim>\<open>ipaddress.IPv6Address\<close> reads it: at most one
  \<^verbatim>\<open>%\<close> with a scope after it, groups of one to four hexadecimal digits between colons, at
  most one \<^verbatim>\<open>::\<close>, and possibly a dotted IPv4 address in place of the last two groups.
\<close>

definition ipv4_octet :: "string \<Rightarrow> bool" where
  "ipv4_octet t =
     (t \<noteq> [] \<and> list_all is_digit t \<and> length t \<le> 3 \<and> (t = ''0'' \<or> hd t \<noteq> CHR ''0'') \<and>
      foldl (\<lambda>a c. 10 * a + (of_char c - 48)) (0 :: nat) t \<le> 255)"

definition ipv4_address :: "string \<Rightarrow> bool" where
  "ipv4_address t = (length (split_on CHR ''.'' t) = 4 \<and> list_all ipv4_octet (split_on CHR ''.'' t))"

definition hextet :: "string \<Rightarrow> bool" where
  "hextet t = (t \<noteq> [] \<and> list_all (\<lambda>c. hex_val c \<noteq> None) t \<and> length t \<le> 4)"

definition ipv6_groups :: "string list \<Rightarrow> bool" where
  "ipv6_groups parts0 =
     (length parts0 \<ge> 3 \<and>
      (CHR ''.'' \<notin> set (last parts0) \<or> ipv4_address (last parts0)) \<and>
      (let parts = (if CHR ''.'' \<in> set (last parts0) then butlast parts0 @ [''0'', ''0''] else parts0);
           n = length parts;
           skips = filter (\<lambda>i. parts ! i = []) [1..<n - 1]
       in n \<le> 9 \<and> length skips \<le> 1 \<and>
          (case skips of
             [] \<Rightarrow> n = 8 \<and> hd parts \<noteq> [] \<and> last parts \<noteq> [] \<and> list_all hextet parts
           | skip_index # _ \<Rightarrow>
               (let parts_hi = (if hd parts = [] then skip_index - 1 else skip_index);
                    parts_lo = (if last parts = [] then n - skip_index - 2 else n - skip_index - 1)
                in (hd parts = [] \<longrightarrow> parts_hi = 0) \<and> (last parts = [] \<longrightarrow> parts_lo = 0) \<and>
                   parts_hi + parts_lo < 8 \<and>
                   list_all hextet (take parts_hi parts) \<and>
                   list_all hextet (drop (n - parts_lo) parts)))))"

definition ipv6_address :: "string \<Rightarrow> bool" where
  "ipv6_address t =
     (case split_once CHR ''%'' t of
        (addr, None) \<Rightarrow> ipv6_groups (split_on CHR '':'' addr)
      | (addr, Some scope_id) \<Rightarrow>
          scope_id \<noteq> [] \<and> CHR ''%'' \<notin> set scope_id \<and> ipv6_groups (split_on CHR '':'' addr))"

definition ipvfuture :: "string \<Rightarrow> bool" where
  "ipvfuture t =
     (let digits = takeWhile (\<lambda>c. hex_val c \<noteq> None) (tl t);
          rest = dropWhile (\<lambda>c. hex_val c \<noteq> None) (tl t)
      in digits \<noteq> [] \<and> take 1 rest = ''.'' \<and> tl rest \<noteq> [] \<and> CHR 0x0A \<notin> set (tl rest))"

definition check_bracketed_host :: "string \<Rightarrow> bool" where
  "check_bracketed_host hostname =
     (if take 1 hostname = ''v'' then ipvfuture hostname else ipv6_address hostname)"

text \<open>
  \<^verbatim>\<open>urlsplit\<close>: leading C0 controls and spaces are dropped, tab, CR and LF removed, a scheme
  is split off when the text before the first colon is a letter followed by scheme
  characters, the network location is what follows \<^verbatim>\<open>//\<close> up to the next \<^verbatim>\<open>/\<close>, \<^verbatim>\<open>?\<close> or \<^verbatim>\<open>#\<close>
  (a lone square bracket in it, or a bracketed text that is no address, raises
  \<^verbatim>\<open>ValueError\<close>), then fragment and query are cut. The last check, \<^verbatim>\<open>_checknetloc\<close>, never
  raises on Latin-1: none of its characters turns into a delimiter under NFKC.
\<close>

definition is_delim :: "char \<Rightarrow> bool" where
  "is_delim c = (c = CHR ''/'' \<or> c = CHR ''?'' \<or> c = CHR ''#'')"

definition urlsplit :: "string \<Rightarrow> py_error + parse_result" where
  "urlsplit url0 =
     (let url1 = filter (\<lambda>c. c \<noteq> CHR 0x09 \<and> c \<noteq> CHR 0x0D \<and> c \<noteq> CHR 0x0A)
                   (dropWhile (\<lambda>c. (of_char c :: nat) \<le> 32) url0);
          i = length (takeWhile (\<lambda>c. c \<noteq> CHR '':'') url1);
          has_scheme = (CHR '':'' \<in> set url1 \<and> i > 0 \<and> is_alpha (hd url1) \<and>
                        list_all is_scheme_char (take i url1));
          scheme = (if has_scheme then lower (take i url1) else []);
          url2 = (if has_scheme then drop (i + 1) url1 else url1);
          has_netloc = (take 2 url2 = ''//'');
          netloc = (if has_netloc then takeWhile (\<lambda>c. \<not> is_delim c) (drop 2 url2) else []);
          url3 = (if has_netloc then dropWhile (\<lambda>c. \<not> is_delim c) (drop 2 url2) else url2);
          bracketed_host = takeWhile (\<lambda>c. c \<noteq> CHR '']'') (tl (dropWhile (\<lambda>c. c \<noteq> CHR ''['') netloc));
          url4 = fst (split_once CHR ''#'' url3);
          fragment = (case snd (split_once CHR ''#'' url3) of None \<Rightarrow> [] | Some f \<Rightarrow> f);
          url5 = fst (split_once CHR ''?'' url4);
          query = (case snd (split_once CHR ''?'' url4) of None \<Rightarrow> [] | Some q \<Rightarrow> q)
      in if has_netloc \<and> ((CHR ''['' \<in> set netloc) \<noteq> (CHR '']'' \<in> set netloc))
         then Inl ValueError
         else if has_netloc \<and> CHR ''['' \<in> set netloc \<and> \<not> check_bracketed_host bracketed_host
         then Inl ValueError
         else Inr \<lparr>pr_scheme = scheme, pr_netloc = netloc, pr_path = url5, pr_params = [],
                    pr_query = query, pr_fragment = fragment\<rparr>)"

text \<open>\<^verbatim>\<open>_splitparams\<close>, called only on a text that has a semicolon.\<close>

definition splitparams :: "string \<Rightarrow> string \<times> string" where
  "splitparams url =
     (if CHR ''/'' \<in> set url then
        (let k = length url - 1 - length (takeWhile (\<lambda>c. c \<noteq> CHR ''/'') (rev url));
             seg = drop k url
         in if CHR '';'' \<in> set seg
            then (take k url @ takeWhile (\<lambda>c. c \<noteq> CHR '';'') seg,
                  tl (dropWhile (\<lambda>c. c \<noteq> CHR '';'') seg))
            else (url, []))
      else (takeWhile (\<lambda>c. c \<noteq> CHR '';'') url, tl (dropWhile (\<lambda>c. c \<noteq> CHR '';'') url)))"

definition urlparse :: "string \<Rightarrow> py_error + parse_result" where
  "urlparse url =
     (case urlsplit url of
        Inl e \<Rightarrow> Inl e
      | Inr r \<Rightarrow>
          if pr_scheme r \<in> set uses_params \<and> CHR '';'' \<in> set (pr_path r)
          then Inr (r\<lparr>pr_path := fst (splitparams (pr_path r)),
                      pr_params := snd (splitparams (pr_path r))\<rparr>)
          else Inr r)"

text \<open>
  \<^verbatim>\<open>unquote\<close>. The escapes of the text are replaced by their bytes, and the bytes are
  decoded as UTF-8 with \<^verbatim>\<open>errors='replace'\<close>: a byte sequence that is no character gives
  U+FFFD, one for each longest part of it that begins a character. A character above
  ASCII that stands in the text unescaped is kept as it is and ends the run of bytes
  around it. A text without \<^verbatim>\<open>%\<close> is returned as it is, which this gives too.
\<close>

datatype token = Byte nat | Code nat

definition token_of :: "char \<Rightarrow> token" where
  "token_of c = (if (of_char c :: nat) < 128 then Byte (of_char c) else Code (of_char c))"

fun tokens :: "string \<Rightarrow> token list" where
  "tokens (c # h1 # h2 # r) =
     (if c = CHR ''%'' then
        (case (hex_val h1, hex_val h2) of
           (Some a, Some b) \<Rightarrow> Byte (16 * a + b) # tokens r
         | _ \<Rightarrow> token_of c # tokens (h1 # h2 # r))
      else token_of c # tokens (h1 # h2 # r))"
| "tokens cs = map token_of cs"

text \<open>
  The continuation byte at the head of the tokens, when there is one within the bounds.
\<close>

definition continuation :: "nat \<Rightarrow> nat \<Rightarrow> token list \<Rightarrow> nat option" where
  "continuation lo hi ts =
     (case ts of Byte b # _ \<Rightarrow> if lo \<le> b \<and> b \<le> hi then Some (b - 128) else None | _ \<Rightarrow> None)"

fun decode_utf8 :: "token list \<Rightarrow> ustring" where
  "decode_utf8 [] = []"
| "decode_utf8 (Code n # ts) = n # decode_utf8 ts"
| "decode_utf8 (Byte b # ts) =
     (if b < 128 then b # decode_utf8 ts
      else if 194 \<le> b \<and> b \<le> 223 then
        (case continuation 128 191 ts of
           None \<Rightarrow> 65533 # decode_utf8 ts
         | Some c1 \<Rightarrow> ((b - 192) * 64 + c1) # decode_utf8 (tl ts))
      else if 224 \<le> b \<and> b \<le> 239 then
        (case continuation (if b = 224 then 160 else 128) (if b = 237 then 159 else 191) ts of
           None \<Rightarrow> 65533 # decode_utf8 ts
         | Some c1 \<Rightarrow>
             (case continuation 128 191 (tl ts) of
                None \<Rightarrow> 65533 # decode_utf8 (tl ts)
              | Some c2 \<Rightarrow> ((b - 224) * 4096 + c1 * 64 + c2) # decode_utf8 (tl (tl ts))))
      else if 240 \<le> b \<and> b \<le> 244 then
        (case continuation (if b = 240 then 144 else 128) (if b = 244 then 143 else 191) ts of
           None \<Rightarrow> 65533 # decode_utf8 ts
         | Some c1 \<Rightarrow>
             (case continuation 128 191 (tl ts) of
                None \<Rightarrow> 65533 # decode_utf8 (tl ts)
              | Some c2 \<Rightarrow>
                  (case continuation 128 191 (tl (tl ts)) of
                     None \<Rightarrow> 65533 # decode_utf8 (tl (tl ts))
                   | Some c3 \<Rightarrow>
                       ((b - 240) * 262144 + c1 * 4096 + c2 * 64 + c3) # decode_utf8 (tl (tl (tl ts))))))
      else 65533 # decode_utf8 ts)"

definition unquote :: "string \<Rightarrow> ustring" where
  "unquote t = decode_utf8 (tokens t)"

definition plus_to_space :: "string \<Rightarrow> string" where
  "plus_to_space t = map (\<lambda>c. if c = CHR ''+'' then CHR '' '' else c) t"

text \<open>
  \<^verbatim>\<open>parse_qsl(query, keep_blank_values=False)\<close>: a field without \<^verbatim>\<open>=\<close> or with an empty
  value is dropped.
\<close>

definition parse_field :: "string \<Rightarrow> (ustring \<times> ustring) list" where
  "parse_field name_value =
     (if name_value = [] then []
      else (case split_once CHR ''='' name_value of
              (n, None) \<Rightarrow> []
            | (n, Some v) \<Rightarrow>
                if v \<noteq> [] then [(unquote (plus_to_space n), unquote (plus_to_space v))] else []))"

definition parse_qsl :: "string \<Rightarrow> (ustring \<times> ustring) list" where
  "parse_qsl qs = concat (map parse_field (split_on CHR ''&'' qs))"

text \<open>
  \<^verbatim>\<open>quote_plus\<close>, through which \<^verbatim>\<open>urlencode\<close> passes every name and value: the text is
  encoded as UTF-8, which raises on a surrogate; the bytes of letters, digits and
  \<^verbatim>\<open>_.-~\<close> stand for themselves, a space becomes \<^verbatim>\<open>+\<close>, any other byte an escape.
\<close>

definition encode_utf8 :: "nat \<Rightarrow> nat list" where
  "encode_utf8 n =
     (if n < 128 then [n]
      else if n < 2048 then [192 + n div 64, 128 + n mod 64]
      else if n < 65536 then [224 + n div 4096, 128 + n div 64 mod 64, 128 + n mod 64]
      else [240 + n div 262144, 128 + n div 4096 mod 64, 128 + n div 64 mod 64, 128 + n mod 64])"

definition hex_digit :: "nat \<Rightarrow> char" where
  "hex_digit n = (if n < 10 then char_of (48 + n) else char_of (55 + n))"

definition quote_byte :: "nat \<Rightarrow> string" where
  "quote_byte b =
     (if (48 \<le> b \<and> b \<le> 57) \<or> (65 \<le> b \<and> b \<le> 90) \<or> (97 \<le> b \<and> b \<le> 122) \<or>
         b = 95 \<or> b = 46 \<or> b = 45 \<or> b = 126
      then [char_of b]
      else if b = 32 then ''+''
      else [CHR ''%'', hex_digit (b div 16), hex_digit (b mod 16)])"

definition quote_plus :: "ustring \<Rightarrow> py_error + string" where
  "quote_plus t =
     (if list_ex (\<lambda>n. 55296 \<le> n \<and> n \<le> 57343) t then Inl UnicodeEncodeError
      else Inr (concat (map quote_byte (concat (map encode_utf8 t)))))"

fun urlencode_items :: "(ustring \<times> ustring) list \<Rightarrow> py_error + string list" where
  "urlencode_items [] = Inr []"
| "urlencode_items ((k, v) # rest) =
     (case quote_plus k of
        Inl e \<Rightarrow> Inl e
      | Inr qk \<Rightarrow>
          (case quote_plus v of
             Inl e \<Rightarrow> Inl e
           | Inr qv \<Rightarrow>
               (case urlencode_items rest of
                  Inl e \<Rightarrow> Inl e
                | Inr l \<Rightarrow> Inr ((qk @ ''='' @ qv) # l))))"

definition urlencode :: "(ustring \<times> ustring) list \<Rightarrow> py_error + string" where
  "urlencode query = (case urlencode_items query of Inl e \<Rightarrow> Inl e | Inr l \<Rightarrow> Inr (join ''&'' l))"

text \<open>\<^verbatim>\<open>urlunparse\<close>, with \<^verbatim>\<open>urlunsplit\<close> in it.\<close>

definition urlunparse :: "string \<times> string \<times> string \<times> string \<times> string \<times> string \<Rightarrow> string" where
  "urlunparse components =
     (case components of (scheme, netloc, path, params, query, fragment) \<Rightarrow>
        (let url0 = (if params \<noteq> [] then path @ '';'' @ params else path);
             url1 = (if netloc \<noteq> [] \<or> (scheme \<noteq> [] \<and> scheme \<in> set uses_netloc) \<or> take 2 url0 = ''//''
                     then ''//'' @ netloc @ (if url0 \<noteq> [] \<and> take 1 url0 \<noteq> ''/'' then ''/'' @ url0 else url0)
                     else url0);
             url2 = (if scheme \<noteq> [] then scheme @ '':'' @ url1 else url1);
             url3 = (if query \<noteq> [] then url2 @ ''?'' @ query else url2)
         in if fragment \<noteq> [] then url3 @ ''#'' @ fragment else url3))"

text \<open>
  \<^verbatim>\<open>date.fromisoformat\<close>, as the C module reads the UTF-8 bytes of the text: seven, eight or
  ten of them, namely four digits of the year, then with or without dashes either two
  digits of the month and two of the day, or \<^verbatim>\<open>W\<close>, two digits of the ISO week and possibly
  one of the day; what follows them is not read. A date is the ordinal of its day; the
  valid ones run from 1 to 3652059, the last day of the year 9999.
\<close>

definition digits_val :: "string \<Rightarrow> int option" where
  "digits_val cs =
     (if cs \<noteq> [] \<and> list_all is_digit cs
      then Some (foldl (\<lambda>a c. 10 * a + (of_char c - 48)) 0 cs) else None)"

definition is_leap :: "int \<Rightarrow> bool" where
  "is_leap y = (y mod 4 = 0 \<and> (y mod 100 \<noteq> 0 \<or> y mod 400 = 0))"

definition days_in_month :: "int \<Rightarrow> int \<Rightarrow> int" where
  "days_in_month y m =
     (if m = 2 then (if is_leap y then 29 else 28)
      else if m = 4 \<or> m = 6 \<or> m = 9 \<or> m = 11 then 30 else 31)"

definition days_before_year :: "int \<Rightarrow> int" where
  "days_before_year y = (y - 1) * 365 + (y - 1) div 4 - (y - 1) div 100 + (y - 1) div 400"

definition days_before_month :: "int \<Rightarrow> int \<Rightarrow> int" where
  "days_before_month y m = sum_list (map (days_in_month y) [1..m - 1])"

definition ymd2ord :: "int \<Rightarrow> int \<Rightarrow> int \<Rightarrow> date" where
  "ymd2ord y m d = days_before_year y + days_before_month y m + d"

definition utf8_length :: "string \<Rightarrow> nat" where
  "utf8_length v = sum_list (map (\<lambda>c. if (of_char c :: nat) < 128 then 1 else 2) v)"

definition iso_week1_monday :: "int \<Rightarrow> int" where
  "iso_week1_monday y =
     (let first_day = ymd2ord y 1 1;
          first_weekday = (first_day + 6) mod 7;
          week1_monday = first_day - first_weekday
      in if first_weekday > 3 then week1_monday + 7 else week1_monday)"

definition iso_to_ord :: "int \<Rightarrow> int \<Rightarrow> int \<Rightarrow> date option" where
  "iso_to_ord y w d =
     (let first_weekday = (ymd2ord y 1 1 + 6) mod 7;
          long_year = (first_weekday = 3 \<or> (first_weekday = 2 \<and> is_leap y))
      in if y < 1 \<or> w < 1 \<or> w > 53 \<or> (w = 53 \<and> \<not> long_year) \<or> d < 1 \<or> d > 7 then None
         else (let ord = iso_week1_monday y + (w - 1) * 7 + d - 1
               in if 1 \<le> ord \<and> ord \<le> 3652059 then Some ord else None))"

definition fromisoformat :: "string \<Rightarrow> date option" where
  "fromisoformat v =
     (let n = utf8_length v;
          sep = (take 1 (drop 4 v) = ''-'');
          r = (if sep then drop 5 v else drop 4 v)
      in if \<not> (n = 7 \<or> n = 8 \<or> n = 10) then None
         else
           (case digits_val (take 4 v) of
              None \<Rightarrow> None
            | Some y \<Rightarrow>
                if take 1 r = ''W'' then
                  (case digits_val (take 2 (drop 1 r)) of
                     None \<Rightarrow> None
                   | Some w \<Rightarrow>
                       if length (take 2 (drop 1 r)) < 2 then None
                       else if utf8_length (drop 3 r) = 0 then iso_to_ord y w 1
                       else if sep \<and> take 1 (drop 3 r) \<noteq> ''-'' then None
                       else (case digits_val (take 1 (drop (if sep then 4 else 3) r)) of
                               None \<Rightarrow> None
                             | Some d \<Rightarrow> iso_to_ord y w d))
                else
                  (case digits_val (take 2 r) of
                     None \<Rightarrow> None
                   | Some m \<Rightarrow>
                       if length (take 2 r) < 2 then None
                       else if sep \<and> take 1 (drop 2 r) \<noteq> ''-'' then None
                       else (case digits_val (take 2 (drop (if sep then 3 else 2) r)) of
                               None \<Rightarrow> None
                             | Some d \<Rightarrow>
                                 if length (take 2 (drop (if sep then 3 else 2) r)) < 2 then None
                                 else if 1 \<le> y \<and> 1 \<le> m \<and> m \<le> 12 \<and> 1 \<le> d \<and> d \<le> days_in_month y m
                                 then Some (ymd2ord y m d) else None))))"

definition stdlib :: pylib where
  "stdlib = \<lparr>py_strip = strip, py_lower = lower, py_lower_text = lower_text,
     py_urlparse = urlparse, py_parse_qsl = parse_qsl, py_urlencode = urlencode,
     py_urlunparse = urlunparse, py_fromisoformat = fromisoformat\<rparr>"

text \<open>The run key \<^verbatim>\<open>run_daily_faucet\<close> derives, and whether a job reported a skip.\<close>

definition faucet_run_key :: "string option \<Rightarrow> string \<Rightarrow> string" where
  "faucet_run_key as_of_date today_iso =
     (case as_of_date of None \<Rightarrow> today_iso | Some d \<Rightarrow> if d = [] then today_iso else d)"

definition is_skipped :: "'a job_report outcome \<Rightarrow> bool" where
  "is_skipped r = (case fst r of Inr (Skipped _ _) \<Rightarrow> True | _ \<Rightarrow> False)"

text \<open>A storage with one human user, created on 2026-02-06.\<close>

definition one_user_storage :: storage where
  "one_user_storage =
     snd (create_user stdlib ''usr_a'' ''alice@example.com'' ''HUMAN'' (Some (Str ''2026-02-06'')) None 739653
            empty_storage)"

text \<open>
  The share of a tie group of \<open>n\<close> users that starts at rank position \<open>start\<close>: the table
  rewards of the positions \<open>start\<close> to \<open>start + n - 1\<close> that the table covers, pooled and
  divided by \<open>n\<close>, rounded.
\<close>

definition pool_share :: "int \<Rightarrow> nat \<Rightarrow> int" where
  "pool_share start n =
     py_round_div (sum_list (map (\<lambda>rank. dict_get CURATION_RANK_REWARDS rank 0)
                               [start..min (start + int n - 1) max_rank])) (int n)"

text \<open>
  A storage with three users who each submitted one candidate to a cycle; the candidates
  have 5, 5 and 3 clicks.
\<close>

definition click_on :: "ident \<Rightarrow> string \<Rightarrow> click_event" where
  "click_on candidate_id fp = \<lparr>ce_cycle_id = ''cyc_1'', ce_candidate_id = candidate_id, ce_fingerprint_hash = fp\<rparr>"

definition submitted :: "ident \<Rightarrow> ident \<Rightarrow> string \<Rightarrow> candidate_link" where
  "submitted candidate_id user_id path =
     \<lparr>cl_id = candidate_id, cl_cycle_id = ''cyc_1'', cl_submitted_by_user_id = user_id,
       cl_original_url = ''https://example.com/'' @ path, cl_canonical_url = ''https://example.com/'' @ path,
       cl_domain = ''example.com'', cl_created_at = 0\<rparr>"

definition human :: "ident \<Rightarrow> user" where
  "human user_id = \<lparr>u_id = user_id, u_email = user_id @ ''@example.com'', u_google_sub = None,
     u_account_type = ''HUMAN'', u_current_chips = 100, u_last_daily_credit_date = 739653\<rparr>"

definition signup :: "ident \<Rightarrow> ledger_entry" where
  "signup user_id = \<lparr>le_user_id = user_id, le_cycle_id = None, le_event_type = ''signup_bonus'', le_chips_delta = 100\<rparr>"

definition clicks_storage :: storage where
  "clicks_storage = empty_storage\<lparr>
     users := [human ''usr_a'', human ''usr_b'', human ''usr_c''],
     chip_ledger := [signup ''usr_a'', signup ''usr_b'', signup ''usr_c''],
     cycles := [\<lparr>cy_id = ''cyc_1'', cy_cycle_date = 739653, cy_status = ''SETTLED'', cy_opened_at = 0, cy_closed_at = Some 0\<rparr>],
     candidate_links := [submitted ''lnk_1'' ''usr_c'' ''c'', submitted ''lnk_2'' ''usr_b'' ''b'', submitted ''lnk_3'' ''usr_a'' ''a''],
     click_events := map (click_on ''lnk_3'') [''1'', ''2'', ''3'', ''4'', ''5''] @
                     map (click_on ''lnk_2'') [''1'', ''2'', ''3'', ''4'', ''5''] @
                     map (click_on ''lnk_1'') [''1'', ''2'', ''3'']\<rparr>"

text \<open>A storage with one open cycle.\<close>

definition open_cycle_storage :: storage where
  "open_cycle_storage = snd (create_cycle stdlib ''cyc_1'' (Some (Str ''2026-02-06'')) 739653 0 empty_storage)"

text \<open>
  The total weight of a cycle's picks and the weight on one candidate, and the row
  \<^verbatim>\<open>compute_market_probabilities\<close> is claimed to give a candidate.
\<close>

definition total_pick_weight :: "ident \<Rightarrow> storage \<Rightarrow> int" where
  "total_pick_weight cycle_id s = sum_list (map (\<lambda>p. rank_weight (pk_rank p)) (list_picks cycle_id s))"

definition candidate_pick_weight :: "ident \<Rightarrow> storage \<Rightarrow> ident \<Rightarrow> int" where
  "candidate_pick_weight cycle_id s candidate_id =
     sum_list (map (\<lambda>p. rank_weight (pk_rank p))
                 (filter (\<lambda>p. pk_candidate_id p = candidate_id) (list_picks cycle_id s)))"

definition probability_of :: "ident \<Rightarrow> storage \<Rightarrow> candidate_link \<Rightarrow> probability_row" where
  "probability_of cid s candidate =
     \<lparr>pb_candidate_id = cl_id candidate, pb_url = cl_original_url candidate,
       pb_domain = cl_domain candidate,
       pb_rank_weight_score = candidate_pick_weight cid s (cl_id candidate),
       pb_market_probability =
         (if total_pick_weight cid s > 0
          then of_int (candidate_pick_weight cid s (cl_id candidate)) / of_int (total_pick_weight cid s)
          else 0)\<rparr>"

text \<open>
  Every pick of the cycle is on a candidate of the cycle; \<^verbatim>\<open>set_ranked_picks\<close> admits no
  other pick.
\<close>

definition picks_in_cycle :: "ident \<Rightarrow> storage \<Rightarrow> bool" where
  "picks_in_cycle cycle_id s =
     list_all (\<lambda>p. pk_cycle_id p = cycle_id \<longrightarrow>
                 list_ex (\<lambda>c. cl_id c = pk_candidate_id p \<and> cl_cycle_id c = cycle_id) (candidate_links s))
       (picks s)"

text \<open>
  A storage as the tests of the repository set it up: two users, an open cycle, three
  candidates, and the ranked picks of both users.
\<close>

definition picked :: "ident \<Rightarrow> ident \<Rightarrow> int \<Rightarrow> timestamp \<Rightarrow> pick" where
  "picked user_id candidate_id rnk picked_at =
     \<lparr>pk_cycle_id = ''cyc_1'', pk_user_id = user_id, pk_candidate_id = candidate_id,
       pk_rank = rnk, pk_picked_at = picked_at\<rparr>"

definition picks_storage :: storage where
  "picks_storage = empty_storage\<lparr>
     users := [human ''usr_a'', human ''usr_b''],
     chip_ledger := [signup ''usr_a'', signup ''usr_b''],
     cycles := [\<lparr>cy_id = ''cyc_1'', cy_cycle_date = 739653, cy_status = ''OPEN'', cy_opened_at = 0,
                 cy_closed_at = None\<rparr>],
     candidate_links := [submitted ''lnk_1'' ''usr_a'' ''a'', submitted ''lnk_2'' ''usr_a'' ''b'',
                         submitted ''lnk_3'' ''usr_b'' ''c''],
     picks := [picked ''usr_a'' ''lnk_1'' 1 1000000, picked ''usr_a'' ''lnk_2'' 2 1000000,
               picked ''usr_b'' ''lnk_1'' 1 2000000, picked ''usr_b'' ''lnk_3'' 2 2000000]\<rparr>"

text \<open>A storage with two users and an open cycle, before any candidate is submitted.\<close>

definition open_market_storage :: storage where
  "open_market_storage = empty_storage\<lparr>
     users := [human ''usr_a'', human ''usr_b''],
     chip_ledger := [signup ''usr_a'', signup ''usr_b''],
     cycles := [\<lparr>cy_id = ''cyc_1'', cy_cycle_date = 739653, cy_status = ''OPEN'', cy_opened_at = 0,
                 cy_closed_at = None\<rparr>]\<rparr>"

text \<open>The candidate records of a cycle that have a given canonical URL.\<close>

definition same_canonical :: "ident \<Rightarrow> string \<Rightarrow> storage \<Rightarrow> candidate_link list" where
  "same_canonical cycle_id canonical s =
     filter (\<lambda>c. cl_cycle_id c = cycle_id \<and> cl_canonical_url c = canonical) (candidate_links s)"

text \<open>The ids drawn for the users of new model agents, by model id.\<close>

definition model_user_ids :: "string \<Rightarrow> ident" where
  "model_user_ids model_id = ''usr_'' @ model_id"

text \<open>
  A candidate breaks the explanation contract when it is selected and the strategy's
  explanation for it as a selected candidate is blank.
\<close>

definition offending ::
  "pylib \<Rightarrow> model_strategy \<Rightarrow> model_agent_config \<Rightarrow> (ident \<times> rat) list \<Rightarrow> ident list \<Rightarrow> candidate_link \<Rightarrow> bool" where
  "offending lib strategy config probabilities selected_ids candidate =
     (cl_id candidate \<in> set selected_ids \<and>
      py_strip lib (explain_choice strategy config candidate (dict_get probabilities (cl_id candidate) 0) True) = [])"

section \<open>Job claims\<close>


lemma length_claim_all: "length (fst (claim_all cs s)) = length cs"
  by (induction cs arbitrary: s) (auto simp: Let_def)






section \<open>Curation rewards\<close>

lemma credit_user_chips_curation_rewards:
  "curation_rewards (snd (credit_user_chips u d e c s)) = curation_rewards s"
  by (simp add: credit_user_chips_def)

lemma has_curation_rewards_cong:
  "curation_rewards s = curation_rewards s' \<Longrightarrow> has_curation_rewards c s = has_curation_rewards c s'"
  by (simp add: has_curation_rewards_def)

lemma award_rows_keeps:
  "has_curation_rewards cid s \<Longrightarrow> has_curation_rewards cid (snd (award_rows cid rws s))"
proof (induction rws arbitrary: s)
  case Nil
  then show ?case by simp
next
  case (Cons row rws)
  let ?s1 = "s\<lparr>curation_rewards := curation_rewards s @
                     [\<lparr>cu_cycle_id = cid, cu_user_id = rr_user_id row, cu_rank = rr_rank row,
                       cu_unique_clicks = rr_unique_clicks row,
                       cu_reward_chips = rr_reward_chips row\<rparr>]\<rparr>"
  let ?c = "credit_user_chips (rr_user_id row) (rr_reward_chips row) ''curation_reward'' (Some cid) ?s1"
  have h1: "has_curation_rewards cid ?s1"
    by (simp add: has_curation_rewards_def)
  have h2: "has_curation_rewards cid (snd ?c)"
    using h1 has_curation_rewards_cong [OF credit_user_chips_curation_rewards] by blast
  show ?case
    using Cons.prems Cons.IH [OF h2]
    by (cases ?c) (auto split: sum.splits)
qed

lemma award_rows_marks:
  assumes "fst (award_rows cid (row # rws) s) = Inr u"
  shows "has_curation_rewards cid (snd (award_rows cid (row # rws) s))"
proof -
  let ?s1 = "s\<lparr>curation_rewards := curation_rewards s @
                     [\<lparr>cu_cycle_id = cid, cu_user_id = rr_user_id row, cu_rank = rr_rank row,
                       cu_unique_clicks = rr_unique_clicks row,
                       cu_reward_chips = rr_reward_chips row\<rparr>]\<rparr>"
  let ?c = "credit_user_chips (rr_user_id row) (rr_reward_chips row) ''curation_reward'' (Some cid) ?s1"
  have h1: "has_curation_rewards cid ?s1"
    by (simp add: has_curation_rewards_def)
  have h2: "has_curation_rewards cid (snd ?c)"
    using h1 has_curation_rewards_cong [OF credit_user_chips_curation_rewards] by blast
  show ?thesis
    using assms award_rows_keeps [OF h2, of rws]
    by (cases ?c) (auto split: sum.splits if_splits)
qed

lemma apply_curation_rewards_rerun:
  assumes "fst (apply_curation_rewards cid s) = Inr rs"
  shows "apply_curation_rewards cid (snd (apply_curation_rewards cid s)) =
           (Inr [], snd (apply_curation_rewards cid s))"
proof (cases "has_curation_rewards cid s \<or> compute_curation_reward_rows cid s = []")
  case True
  then show ?thesis by (auto simp: apply_curation_rewards_def Let_def)
next
  case False
  then obtain row rws where rr: "compute_curation_reward_rows cid s = row # rws"
    by (cases "compute_curation_reward_rows cid s") auto
  have ap: "apply_curation_rewards cid s =
     bind (award_rows cid (row # rws) s) (\<lambda>_ s'. (Inr (row # rws), s'))"
    using False rr by (simp add: apply_curation_rewards_def Let_def)
  obtain r s' where aw: "award_rows cid (row # rws) s = (r, s')" by (cases "award_rows cid (row # rws) s")
  have "\<exists>u. r = Inr u" using assms unfolding ap aw by (cases r) (simp_all add: bind_def)
  then have "has_curation_rewards cid s'"
    using award_rows_marks [of cid row rws s] aw by auto
  moreover have "snd (apply_curation_rewards cid s) = s'"
    unfolding ap aw by (cases r) (simp_all add: bind_def)
  ultimately show ?thesis by (simp add: apply_curation_rewards_def)
qed

lemma eligible_sum:
  "sum_list (map (\<lambda>rank. the (map_of T rank)) (filter (\<lambda>rank. map_of T rank \<noteq> None) ps)) =
   sum_list (map (\<lambda>rank. dict_get T rank (0::int)) ps)"
  by (induction ps) (auto simp: dict_get_def)

lemma dropWhile_lower:
  assumes "sorted_wrt (\<lambda>a b. snd a \<ge> snd b) (row # rws)"
  shows "\<forall>x \<in> set (dropWhile (\<lambda>r. snd r = snd row) rws). (snd x :: int) < snd row"
proof (cases "dropWhile (\<lambda>r. snd r = snd row) rws")
  case Nil
  show ?thesis unfolding Nil by simp
next
  case (Cons y ys)
  have split: "rws = takeWhile (\<lambda>r. snd r = snd row) rws @ y # ys"
    using Cons takeWhile_dropWhile_id [of "\<lambda>r. snd r = snd row" rws] by simp
  have "snd y \<noteq> snd row" using Cons hd_dropWhile [of "\<lambda>r. snd r = snd row" rws] by force
  moreover have "y \<in> set rws" using split by (metis in_set_conv_decomp)
  ultimately have y: "snd y < snd row" using assms by force
  have "sorted_wrt (\<lambda>a b. snd a \<ge> snd b) (takeWhile (\<lambda>r. snd r = snd row) rws @ y # ys)"
    using assms split by simp
  then have "\<forall>z \<in> set ys. snd z \<le> snd y" by (simp add: sorted_wrt_append)
  then show ?thesis using y Cons by auto
qed

lemma curation_walk_rows:
  assumes "sorted_wrt (\<lambda>a b. snd a \<ge> snd b) (pre @ xs)"
    and "\<forall>p \<in> set pre. \<forall>x \<in> set xs. snd p > snd x"
    and "nr = int (length pre) + 1"
    and "r \<in> set (curation_walk nr xs)"
  shows "rr_rank r = 1 + int (length (filter (\<lambda>x. snd x > rr_unique_clicks r) (pre @ xs))) \<and>
         rr_reward_chips r =
           pool_share (rr_rank r) (length (filter (\<lambda>x. snd x = rr_unique_clicks r) (pre @ xs))) \<and>
         (rr_user_id r, rr_unique_clicks r) \<in> set xs"
  using assms
proof (induction xs arbitrary: pre nr rule: length_induct)
  case (1 xs)
  show ?case
  proof (cases xs)
    case Nil
    then show ?thesis using "1.prems"(4) by simp
  next
    case (Cons row rws)
    define c where "c = snd row"
    define tw where "tw = takeWhile (\<lambda>r. snd r = c) rws"
    define dw where "dw = dropWhile (\<lambda>r. snd r = c) rws"
    define grp where "grp = row # tw"
    have rws: "rws = tw @ dw" by (simp add: tw_def dw_def)
    have srt: "sorted_wrt (\<lambda>a b. snd a \<ge> snd b) (pre @ row # rws)" using "1.prems"(1) Cons by simp
    have srt_x: "sorted_wrt (\<lambda>a b. snd a \<ge> snd b) (row # rws)" using srt by (simp add: sorted_wrt_append)
    have tw_c: "\<forall>x \<in> set tw. snd x = c" unfolding tw_def by (auto dest: set_takeWhileD)
    have dw_lt: "\<forall>x \<in> set dw. snd x < c" unfolding dw_def c_def by (rule dropWhile_lower [OF srt_x])
    have pre_gt: "\<forall>p \<in> set pre. snd p > c" using "1.prems"(2) Cons by (simp add: c_def)
    have row_c: "snd row = c" by (simp add: c_def)
    have f_pre: "filter (\<lambda>x. snd x > c) pre = pre" "filter (\<lambda>x. snd x = c) pre = []"
      using pre_gt by (auto simp: filter_id_conv filter_empty_conv)
    have f_tw: "filter (\<lambda>x. snd x > c) tw = []" "filter (\<lambda>x. snd x = c) tw = tw"
      using tw_c by (auto simp: filter_id_conv filter_empty_conv)
    have f_dw: "filter (\<lambda>x. snd x > c) dw = []" "filter (\<lambda>x. snd x = c) dw = []"
      using dw_lt by (auto simp: filter_empty_conv)
    have xs_eq: "pre @ xs = pre @ [row] @ tw @ dw" unfolding Cons using rws by simp
    have cnt_gt: "filter (\<lambda>x. snd x > c) (pre @ xs) = pre"
      unfolding xs_eq filter_append f_pre f_tw f_dw using row_c by simp
    have cnt_eq: "filter (\<lambda>x. snd x = c) (pre @ xs) = grp"
      unfolding xs_eq filter_append f_pre f_tw f_dw grp_def using row_c by simp
    define endr where "endr = min (nr + int (length grp) - 1) max_rank"
    define elig where "elig = filter (\<lambda>rank. map_of CURATION_RANK_REWARDS rank \<noteq> None) [nr..endr]"
    define split where "split = py_round_div (sum_list (map (\<lambda>rank. the (map_of CURATION_RANK_REWARDS rank)) elig)) (int (length grp))"
    have split_eq: "split = pool_share nr (length grp)"
      unfolding split_def elig_def pool_share_def endr_def eligible_sum ..
    have unfold: "curation_walk nr xs =
       (if \<not> nr \<le> max_rank then [] else if elig = [] then []
        else map (\<lambda>r. \<lparr>rr_user_id = fst r, rr_rank = nr, rr_unique_clicks = c, rr_reward_chips = split\<rparr>) grp
             @ curation_walk (nr + int (length grp)) dw)"
      unfolding Cons
      by (simp add: Let_def c_def tw_def dw_def grp_def endr_def elig_def split_def)
    from "1.prems"(4) have mem: "r \<in> set (map (\<lambda>r. \<lparr>rr_user_id = fst r, rr_rank = nr, rr_unique_clicks = c, rr_reward_chips = split\<rparr>) grp)
         \<or> r \<in> set (curation_walk (nr + int (length grp)) dw)"
      unfolding unfold by (auto split: if_splits)
    then show ?thesis
    proof
      assume "r \<in> set (map (\<lambda>r. \<lparr>rr_user_id = fst r, rr_rank = nr, rr_unique_clicks = c, rr_reward_chips = split\<rparr>) grp)"
      then obtain g where g: "g \<in> set grp" "r = \<lparr>rr_user_id = fst g, rr_rank = nr, rr_unique_clicks = c, rr_reward_chips = split\<rparr>"
        by auto
      have "snd g = c" using g(1) tw_c by (auto simp: grp_def c_def)
      moreover have "g \<in> set xs" using g(1) unfolding Cons grp_def tw_def by (auto dest: set_takeWhileD)
      ultimately have "(rr_user_id r, rr_unique_clicks r) \<in> set xs" using g(2) by (cases g) auto
      then show ?thesis
        using g(2) cnt_gt cnt_eq split_eq "1.prems"(3) by simp
    next
      assume in_rest: "r \<in> set (curation_walk (nr + int (length grp)) dw)"
      have len: "length dw < length xs" unfolding Cons rws by simp
      have eq: "(pre @ grp) @ dw = pre @ xs" unfolding Cons rws grp_def by simp
      have s1: "sorted_wrt (\<lambda>a b. snd a \<ge> snd b) ((pre @ grp) @ dw)" unfolding eq by (rule "1.prems"(1))
      have s2: "\<forall>p \<in> set (pre @ grp). \<forall>x \<in> set dw. snd p > snd x"
      proof (intro ballI)
        fix p x assume p: "p \<in> set (pre @ grp)" and x: "x \<in> set dw"
        have "snd p \<ge> c" using p pre_gt tw_c by (auto simp: grp_def c_def)
        moreover have "snd x < c" using x dw_lt by simp
        ultimately show "snd p > snd x" by simp
      qed
      have s3: "nr + int (length grp) = int (length (pre @ grp)) + 1" using "1.prems"(3) by simp
      have "rr_rank r = 1 + int (length (filter (\<lambda>x. snd x > rr_unique_clicks r) ((pre @ grp) @ dw))) \<and>
         rr_reward_chips r =
           pool_share (rr_rank r) (length (filter (\<lambda>x. snd x = rr_unique_clicks r) ((pre @ grp) @ dw))) \<and>
         (rr_user_id r, rr_unique_clicks r) \<in> set dw"
        using "1.IH" len s1 s2 s3 in_rest by blast
      then show ?thesis unfolding eq unfolding Cons rws by simp
    qed
  qed
qed

lemma click_counts_sorted: "sorted_wrt (\<lambda>a b. snd a \<ge> snd b) (click_counts cid s)"
proof -
  have "sorted (map (\<lambda>row. (- snd row, fst row)) (click_counts cid s))"
    unfolding click_counts_def Let_def by (rule sorted_sort_key)
  then have "sorted_wrt (\<lambda>a b. (- snd a, fst a) \<le> (- snd b, fst b)) (click_counts cid s)"
    by (simp add: sorted_map)
  then show ?thesis
    by (rule sorted_wrt_mono_rel [rotated]) (auto simp: less_eq_prod_def)
qed

text \<open>
  C6. Click counts 5, 5, 3 give the two users with 5 clicks a row at rank 1 with the
  reward round((40 + 20) / 2) = 30 each and the user with 3 clicks a row at rank 3 with
  the reward 10, in the loop and through \<^verbatim>\<open>apply_curation_rewards\<close> on a storage with these
  clicks. In general every reward row is recorded at the first position of its tie
  group's run (one more than the number of submitters with more clicks) with the pooled
  share of the group, and when \<^verbatim>\<open>apply_curation_rewards\<close> has returned, running it again on
  the same cycle returns no rows and changes nothing.
\<close>

theorem curation_tie_groups_pool_rewards:
  "curation_walk 1 [(''usr_a'', 5), (''usr_b'', 5), (''usr_c'', 3)] =
     [\<lparr>rr_user_id = ''usr_a'', rr_rank = 1, rr_unique_clicks = 5, rr_reward_chips = 30\<rparr>,
      \<lparr>rr_user_id = ''usr_b'', rr_rank = 1, rr_unique_clicks = 5, rr_reward_chips = 30\<rparr>,
      \<lparr>rr_user_id = ''usr_c'', rr_rank = 3, rr_unique_clicks = 3, rr_reward_chips = 10\<rparr>] \<and>
   py_round_div (40 + 20) 2 = 30 \<and>
   fst (apply_curation_rewards ''cyc_1'' clicks_storage) = Inr
     [\<lparr>rr_user_id = ''usr_a'', rr_rank = 1, rr_unique_clicks = 5, rr_reward_chips = 30\<rparr>,
      \<lparr>rr_user_id = ''usr_b'', rr_rank = 1, rr_unique_clicks = 5, rr_reward_chips = 30\<rparr>,
      \<lparr>rr_user_id = ''usr_c'', rr_rank = 3, rr_unique_clicks = 3, rr_reward_chips = 10\<rparr>] \<and>
   (r \<in> set (compute_curation_reward_rows cid s) \<longrightarrow>
      rr_rank r = 1 + int (length (filter (\<lambda>x. snd x > rr_unique_clicks r) (click_counts cid s))) \<and>
      rr_reward_chips r =
        pool_share (rr_rank r) (length (filter (\<lambda>x. snd x = rr_unique_clicks r) (click_counts cid s))) \<and>
      (rr_user_id r, rr_unique_clicks r) \<in> set (click_counts cid s)) \<and>
   (fst (apply_curation_rewards cid s) = Inr rs \<longrightarrow>
      apply_curation_rewards cid (snd (apply_curation_rewards cid s)) =
        (Inr [], snd (apply_curation_rewards cid s)))"
proof -
  have walk: "curation_walk 1 [(''usr_a'', 5), (''usr_b'', 5), (''usr_c'', 3)] =
     [\<lparr>rr_user_id = ''usr_a'', rr_rank = 1, rr_unique_clicks = 5, rr_reward_chips = 30\<rparr>,
      \<lparr>rr_user_id = ''usr_b'', rr_rank = 1, rr_unique_clicks = 5, rr_reward_chips = 30\<rparr>,
      \<lparr>rr_user_id = ''usr_c'', rr_rank = 3, rr_unique_clicks = 3, rr_reward_chips = 10\<rparr>]"
    by code_simp
  have round: "py_round_div (40 + 20) 2 = 30"
    by (simp add: py_round_div_def)
  have stored: "fst (apply_curation_rewards ''cyc_1'' clicks_storage) = Inr
     [\<lparr>rr_user_id = ''usr_a'', rr_rank = 1, rr_unique_clicks = 5, rr_reward_chips = 30\<rparr>,
      \<lparr>rr_user_id = ''usr_b'', rr_rank = 1, rr_unique_clicks = 5, rr_reward_chips = 30\<rparr>,
      \<lparr>rr_user_id = ''usr_c'', rr_rank = 3, rr_unique_clicks = 3, rr_reward_chips = 10\<rparr>]"
    by code_simp
  have general: "rr_rank r = 1 + int (length (filter (\<lambda>x. snd x > rr_unique_clicks r) (click_counts cid s))) \<and>
      rr_reward_chips r =
        pool_share (rr_rank r) (length (filter (\<lambda>x. snd x = rr_unique_clicks r) (click_counts cid s))) \<and>
      (rr_user_id r, rr_unique_clicks r) \<in> set (click_counts cid s)"
    if "r \<in> set (compute_curation_reward_rows cid s)"
    using curation_walk_rows [of "[]" "click_counts cid s" 1 r] that click_counts_sorted [of cid s]
    by (simp add: compute_curation_reward_rows_def)
  have again: "apply_curation_rewards cid (snd (apply_curation_rewards cid s)) =
        (Inr [], snd (apply_curation_rewards cid s))"
    if "fst (apply_curation_rewards cid s) = Inr rs"
    using that by (rule apply_curation_rewards_rerun)
  from walk round stored general again show ?thesis by blast
qed

theorem curation_tie_groups_pool_rewards_witness:
  "\<lparr>rr_user_id = ''usr_b'', rr_rank = 1, rr_unique_clicks = 5, rr_reward_chips = 30\<rparr>
     \<in> set (compute_curation_reward_rows ''cyc_1'' clicks_storage) \<and>
   fst (apply_curation_rewards ''cyc_1'' clicks_storage) = Inr
     [\<lparr>rr_user_id = ''usr_a'', rr_rank = 1, rr_unique_clicks = 5, rr_reward_chips = 30\<rparr>,
      \<lparr>rr_user_id = ''usr_b'', rr_rank = 1, rr_unique_clicks = 5, rr_reward_chips = 30\<rparr>,
      \<lparr>rr_user_id = ''usr_c'', rr_rank = 3, rr_unique_clicks = 3, rr_reward_chips = 10\<rparr>] \<and>
   length (filter (\<lambda>x. snd x > 5) (click_counts ''cyc_1'' clicks_storage)) = 0 \<and>
   length (filter (\<lambda>x. snd x = 5) (click_counts ''cyc_1'' clicks_storage)) = 2 \<and>
   pool_share 1 2 = 30 \<and>
   apply_curation_rewards ''cyc_1'' (snd (apply_curation_rewards ''cyc_1'' clicks_storage)) =
     (Inr [], snd (apply_curation_rewards ''cyc_1'' clicks_storage))"
proof -
  have m: "\<lparr>rr_user_id = ''usr_b'', rr_rank = 1, rr_unique_clicks = 5, rr_reward_chips = 30\<rparr>
     \<in> set (compute_curation_reward_rows ''cyc_1'' clicks_storage)"
    by code_simp
  have f: "fst (apply_curation_rewards ''cyc_1'' clicks_storage) = Inr
     [\<lparr>rr_user_id = ''usr_a'', rr_rank = 1, rr_unique_clicks = 5, rr_reward_chips = 30\<rparr>,
      \<lparr>rr_user_id = ''usr_b'', rr_rank = 1, rr_unique_clicks = 5, rr_reward_chips = 30\<rparr>,
      \<lparr>rr_user_id = ''usr_c'', rr_rank = 3, rr_unique_clicks = 3, rr_reward_chips = 10\<rparr>]"
    by code_simp
  have c: "click_counts ''cyc_1'' clicks_storage = [(''usr_a'', 5), (''usr_b'', 5), (''usr_c'', 3)]"
    by code_simp
  have p: "pool_share 1 2 = 30"
    by code_simp
  show ?thesis
    using m f p curation_tie_groups_pool_rewards [of
      "\<lparr>rr_user_id = ''usr_b'', rr_rank = 1, rr_unique_clicks = 5, rr_reward_chips = 30\<rparr>"
      "''cyc_1''" clicks_storage
      "[\<lparr>rr_user_id = ''usr_a'', rr_rank = 1, rr_unique_clicks = 5, rr_reward_chips = 30\<rparr>,
      \<lparr>rr_user_id = ''usr_b'', rr_rank = 1, rr_unique_clicks = 5, rr_reward_chips = 30\<rparr>,
      \<lparr>rr_user_id = ''usr_c'', rr_rank = 3, rr_unique_clicks = 3, rr_reward_chips = 10\<rparr>]"]
    by (simp add: c)
qed

section \<open>Market probabilities\<close>

lemma rank_weight_table: "rank_weight r = (if 1 \<le> r \<and> r \<le> 10 then 11 - r else 1)"
proof -
  have "r = 1 \<or> r = 2 \<or> r = 3 \<or> r = 4 \<or> r = 5 \<or> r = 6 \<or> r = 7 \<or> r = 8 \<or> r = 9 \<or> r = 10
          \<or> \<not> (1 \<le> r \<and> r \<le> 10)" by arith
  then show ?thesis
    by (auto simp: rank_weight_def dict_get_def RANK_WEIGHTS_def)
qed

lemma dict_get_dict_add:
  "dict_get (dict_add d k v) k' 0 = dict_get d k' 0 + (if k' = k then v else 0)"
  by (simp add: dict_add_def dict_get_def update_conv')

lemma sum_dict_add: "sum_list (map snd (dict_add d k v)) = sum_list (map snd d) + v"
proof -
  have "sum_list (map snd (AList.update k (dict_get d k 0 + v) d)) = sum_list (map snd d) + v"
    by (induction d) (auto simp: dict_get_def)
  then show ?thesis by (simp add: dict_add_def)
qed

lemma foldl_weights_get:
  "dict_get (foldl (\<lambda>w p. dict_add w (kf p) (vf p)) w0 ps) k 0 =
     dict_get w0 k 0 + sum_list (map vf (filter (\<lambda>p. kf p = k) ps))"
  by (induction ps arbitrary: w0) (auto simp: dict_get_dict_add)

lemma foldl_weights_sum:
  "sum_list (map snd (foldl (\<lambda>w p. dict_add w (kf p) (vf p)) w0 ps)) =
     sum_list (map snd w0) + sum_list (map vf ps)"
  by (induction ps arbitrary: w0) (auto simp: sum_dict_add)

lemma sum_list_insort: "sum_list (map f (insort_key g x xs)) = (f x :: 'b :: comm_monoid_add) + sum_list (map f xs)"
  by (induction xs) (auto simp: ac_simps)

lemma sum_list_sort_key: "sum_list (map f (sort_key g xs)) = (sum_list (map f xs) :: 'b :: comm_monoid_add)"
  by (induction xs) (auto simp: sum_list_insort)

lemma sum_list_sorted_desc: "sum_list (map f (sorted_desc g xs)) = (sum_list (map f xs) :: 'b :: comm_monoid_add)"
  by (simp add: sorted_desc_def sum_list_rev sum_list_sort_key flip: rev_map)

lemma sum_absent_key:
  "c \<notin> set ids \<Longrightarrow> sum_list (map (\<lambda>i. if c = i then (x::int) else 0) ids) = 0"
  by (induction ids) auto

lemma sum_single_key:
  "distinct ids \<Longrightarrow> c \<in> set ids \<Longrightarrow> sum_list (map (\<lambda>i. if c = i then (x::int) else 0) ids) = x"
  by (induction ids) (auto simp: sum_absent_key)

lemma sum_by_key:
  assumes "distinct ids" and "\<forall>p \<in> set ps. kf p \<in> set ids"
  shows "sum_list (map (\<lambda>i. sum_list (map vf (filter (\<lambda>p. kf p = i) ps))) ids) = (sum_list (map vf ps) :: int)"
  using assms(2)
proof (induction ps)
  case Nil
  then show ?case by simp
next
  case (Cons p ps)
  have "sum_list (map (\<lambda>i. sum_list (map vf (filter (\<lambda>p. kf p = i) (p # ps)))) ids) =
        sum_list (map (\<lambda>i. (if kf p = i then vf p else 0) + sum_list (map vf (filter (\<lambda>p. kf p = i) ps))) ids)"
    by (intro arg_cong [where f = sum_list] map_cong) auto
  also have "\<dots> = sum_list (map (\<lambda>i. if kf p = i then vf p else 0) ids) +
        sum_list (map (\<lambda>i. sum_list (map vf (filter (\<lambda>p. kf p = i) ps))) ids)"
    by (simp add: sum_list_addf)
  also have "\<dots> = vf p + sum_list (map vf ps)"
    using Cons assms(1) by (simp add: sum_single_key)
  finally show ?case by simp
qed

lemma sum_list_of_int:
  "sum_list (map (\<lambda>x. (of_int (f x) :: rat)) xs) = of_int (sum_list (map f xs))"
  by (induction xs) auto

lemma sum_list_divide: "sum_list (map (\<lambda>x. f x / (t::rat)) xs) = sum_list (map f xs) / t"
  by (induction xs) (auto simp: add_divide_distrib)

lemma list_candidates_set:
  "set (list_candidates cid s) = {c \<in> set (candidate_links s). cl_cycle_id c = cid}"
  by (auto simp: list_candidates_def)

lemma list_candidates_distinct:
  assumes "distinct (map cl_id (candidate_links s))"
  shows "distinct (map cl_id (list_candidates cid s))"
proof -
  have "distinct (map cl_id (filter (\<lambda>c. cl_cycle_id c = cid) (candidate_links s)))"
    using assms by (rule distinct_map_filter)
  then show ?thesis
    by (simp add: list_candidates_def distinct_map)
qed

lemma list_picks_set:
  "set (list_picks cid s) = {p \<in> set (picks s). pk_cycle_id p = cid}"
  by (auto simp: list_picks_def)

lemma pick_weights_get:
  "dict_get (pick_weights ps) k 0 =
     sum_list (map (\<lambda>p. rank_weight (pk_rank p)) (filter (\<lambda>p. pk_candidate_id p = k) ps))"
  using foldl_weights_get [of pk_candidate_id "\<lambda>p. rank_weight (pk_rank p)" "[]" ps k]
  by (simp add: pick_weights_def dict_get_def)

lemma pick_weights_sum:
  "sum_list (map snd (pick_weights ps)) = sum_list (map (\<lambda>p. rank_weight (pk_rank p)) ps)"
  using foldl_weights_sum [of pk_candidate_id "\<lambda>p. rank_weight (pk_rank p)" "[]" ps]
  by (simp add: pick_weights_def)

lemma scores_sum:
  assumes "distinct (map cl_id (candidate_links s))" and "picks_in_cycle cid s"
  shows "sum_list (map (\<lambda>c. candidate_pick_weight cid s (cl_id c)) (list_candidates cid s)) =
         total_pick_weight cid s"
proof -
  have mem: "\<forall>p \<in> set (list_picks cid s). pk_candidate_id p \<in> set (map cl_id (list_candidates cid s))"
  proof
    fix p assume "p \<in> set (list_picks cid s)"
    then have p: "p \<in> set (picks s)" "pk_cycle_id p = cid" by (auto simp: list_picks_set)
    then obtain c where "c \<in> set (candidate_links s)" "cl_id c = pk_candidate_id p" "cl_cycle_id c = cid"
      using assms(2) by (auto simp: picks_in_cycle_def list_all_iff list_ex_iff)
    then have "c \<in> set (list_candidates cid s)" "cl_id c = pk_candidate_id p"
      by (simp_all add: list_candidates_set)
    then show "pk_candidate_id p \<in> set (map cl_id (list_candidates cid s))"
      by (metis image_eqI set_map)
  qed
  have "sum_list (map (\<lambda>i. sum_list (map (\<lambda>p. rank_weight (pk_rank p))
            (filter (\<lambda>p. pk_candidate_id p = i) (list_picks cid s)))) (map cl_id (list_candidates cid s))) =
        sum_list (map (\<lambda>p. rank_weight (pk_rank p)) (list_picks cid s))"
    by (rule sum_by_key [OF list_candidates_distinct [OF assms(1)] mem])
  then show ?thesis
    by (simp add: candidate_pick_weight_def total_pick_weight_def comp_def)
qed

lemma compute_market_probabilities_rows:
  "compute_market_probabilities cid s =
     sorted_desc pb_market_probability (map (probability_of cid s) (list_candidates cid s))"
  unfolding compute_market_probabilities_def Let_def probability_of_def candidate_pick_weight_def
    total_pick_weight_def pick_weights_get pick_weights_sum ..

lemma probabilities_sum:
  assumes "distinct (map cl_id (candidate_links s))" and "picks_in_cycle cid s"
  shows "sum_list (map pb_market_probability (compute_market_probabilities cid s)) =
         (if total_pick_weight cid s > 0 then 1 else 0)"
proof (cases "total_pick_weight cid s > 0")
  case True
  have "sum_list (map pb_market_probability (compute_market_probabilities cid s)) =
        sum_list (map (\<lambda>c. of_int (candidate_pick_weight cid s (cl_id c)) / of_int (total_pick_weight cid s))
          (list_candidates cid s))"
    using True
    by (simp add: compute_market_probabilities_rows sum_list_sorted_desc comp_def probability_of_def)
  also have "\<dots> = sum_list (map (\<lambda>c. of_int (candidate_pick_weight cid s (cl_id c))) (list_candidates cid s))
                    / of_int (total_pick_weight cid s)"
    by (rule sum_list_divide)
  also have "sum_list (map (\<lambda>c. (of_int (candidate_pick_weight cid s (cl_id c)) :: rat)) (list_candidates cid s)) =
             of_int (sum_list (map (\<lambda>c. candidate_pick_weight cid s (cl_id c)) (list_candidates cid s)))"
    by (rule sum_list_of_int)
  finally show ?thesis
    using True scores_sum [OF assms] by simp
next
  case False
  then show ?thesis
    by (simp add: compute_market_probabilities_rows sum_list_sorted_desc comp_def probability_of_def)
qed

lemma all_zero:
  assumes "\<not> total_pick_weight cid s > 0"
  shows "list_all (\<lambda>row. pb_market_probability row = 0) (compute_market_probabilities cid s)"
  using assms
  by (simp add: compute_market_probabilities_rows sorted_desc_def list_all_iff probability_of_def)

text \<open>The two operations that write picks and candidates keep the picks on candidates of their cycle.\<close>

lemma validated_ids_are_candidates:
  assumes "distinct (map cl_id cands)" and "distinct ids"
    and "length (filter (\<lambda>c. cl_cycle_id c = cid \<and> cl_id c \<in> set ids) cands) = length ids"
    and "i \<in> set ids"
  shows "\<exists>c \<in> set cands. cl_id c = i \<and> cl_cycle_id c = cid"
proof -
  define F where "F = filter (\<lambda>c. cl_cycle_id c = cid \<and> cl_id c \<in> set ids) cands"
  have d: "distinct (map cl_id F)" unfolding F_def using assms(1) by (rule distinct_map_filter)
  have sub: "set (map cl_id F) \<subseteq> set ids" unfolding F_def by auto
  have "card (set (map cl_id F)) = length (map cl_id F)" using d by (rule distinct_card)
  also have "\<dots> = length F" by simp
  also have "\<dots> = length ids" using assms(3) by (simp add: F_def)
  also have "\<dots> = card (set ids)" using assms(2) by (simp add: distinct_card)
  finally have "card (set (map cl_id F)) = card (set ids)" .
  then have "set (map cl_id F) = set ids"
    using sub by (intro card_subset_eq) simp_all
  then have "i \<in> set (map cl_id F)" using assms(4) by simp
  then obtain c where "c \<in> set F" "cl_id c = i" by auto
  then show ?thesis unfolding F_def by auto
qed

lemma new_picks_candidates:
  "map pk_candidate_id (map (\<lambda>ic. \<lparr>pk_cycle_id = cid, pk_user_id = uid, pk_candidate_id = snd ic,
                     pk_rank = int (fst ic), pk_picked_at = t\<rparr>) (enumerate n ids)) = ids"
  by (simp add: comp_def)

lemma new_picks_cycle:
  "p \<in> set (map (\<lambda>ic. \<lparr>pk_cycle_id = cid, pk_user_id = uid, pk_candidate_id = snd ic,
                     pk_rank = int (fst ic), pk_picked_at = t\<rparr>) xs) \<Longrightarrow> pk_cycle_id p = cid"
  by (induction xs) auto

lemma set_ranked_picks_ok:
  assumes "\<not> length ids > MAX_PICKS_PER_CYCLE" and "length (remdups ids) = length ids"
    and "ids \<noteq> [] \<longrightarrow> length (filter (\<lambda>c. cl_cycle_id c = cid \<and> cl_id c \<in> set ids) (candidate_links s)) = length ids"
    and "ids \<noteq> [] \<longrightarrow> cycle_exists cid s \<and> user_exists uid s \<and> list_all (\<lambda>i. candidate_exists i s) ids"
  shows "picks (snd (set_ranked_picks cid uid ids now s)) =
           filter (\<lambda>p. \<not> (pk_cycle_id p = cid \<and> pk_user_id p = uid)) (picks s) @
           map (\<lambda>ic. \<lparr>pk_cycle_id = cid, pk_user_id = uid, pk_candidate_id = snd ic,
                     pk_rank = int (fst ic), pk_picked_at = now_iso now\<rparr>) (enumerate 1 ids)"
    and "candidate_links (snd (set_ranked_picks cid uid ids now s)) = candidate_links s"
  using assms by (auto simp add: set_ranked_picks_def Let_def)

lemma set_ranked_picks_rejected:
  assumes "length ids > MAX_PICKS_PER_CYCLE \<or> length (remdups ids) \<noteq> length ids \<or>
     (ids \<noteq> [] \<and> length (filter (\<lambda>c. cl_cycle_id c = cid \<and> cl_id c \<in> set ids) (candidate_links s)) \<noteq> length ids) \<or>
     (ids \<noteq> [] \<and> \<not> (cycle_exists cid s \<and> user_exists uid s \<and> list_all (\<lambda>i. candidate_exists i s) ids))"
  shows "snd (set_ranked_picks cid uid ids now s) = s"
proof -
  have "set_ranked_picks cid uid ids now s = (Inl ValueError, s) \<or>
        set_ranked_picks cid uid ids now s = (Inl IntegrityError, s)"
    using assms unfolding set_ranked_picks_def by (simp only: de_Morgan_conj not_not split: if_split) blast
  then show ?thesis by auto
qed

lemma set_ranked_picks_keeps_invariant:
  assumes "distinct (map cl_id (candidate_links s))" and "picks_in_cycle c s"
  shows "distinct (map cl_id (candidate_links (snd (set_ranked_picks cid uid ids now s)))) \<and>
         picks_in_cycle c (snd (set_ranked_picks cid uid ids now s))"
proof -
  let ?s' = "snd (set_ranked_picks cid uid ids now s)"
  let ?new = "map (\<lambda>ic. \<lparr>pk_cycle_id = cid, pk_user_id = uid, pk_candidate_id = snd ic,
                     pk_rank = int (fst ic), pk_picked_at = now_iso now\<rparr>) (enumerate 1 ids)"
  let ?kept = "filter (\<lambda>p. \<not> (pk_cycle_id p = cid \<and> pk_user_id p = uid)) (picks s)"
  let ?rejected = "length ids > MAX_PICKS_PER_CYCLE \<or> length (remdups ids) \<noteq> length ids \<or>
     (ids \<noteq> [] \<and> length (filter (\<lambda>c. cl_cycle_id c = cid \<and> cl_id c \<in> set ids) (candidate_links s)) \<noteq> length ids) \<or>
     (ids \<noteq> [] \<and> \<not> (cycle_exists cid s \<and> user_exists uid s \<and> list_all (\<lambda>i. candidate_exists i s) ids))"
  have cl: "candidate_links ?s' = candidate_links s"
  proof (cases ?rejected)
    case True
    then show ?thesis by (simp only: set_ranked_picks_rejected)
  next
    case False
    then show ?thesis by (intro set_ranked_picks_ok(2)) blast+
  qed
  consider "picks ?s' = picks s"
    | "distinct ids"
      "ids \<noteq> [] \<longrightarrow> length (filter (\<lambda>c. cl_cycle_id c = cid \<and> cl_id c \<in> set ids) (candidate_links s)) = length ids"
      "picks ?s' = ?kept @ ?new"
  proof (cases ?rejected)
    case True
    then have "picks ?s' = picks s" by (simp only: set_ranked_picks_rejected)
    then show ?thesis by (rule that(1))
  next
    case False
    then have ok: "\<not> length ids > MAX_PICKS_PER_CYCLE" "length (remdups ids) = length ids"
      "ids \<noteq> [] \<longrightarrow> length (filter (\<lambda>c. cl_cycle_id c = cid \<and> cl_id c \<in> set ids) (candidate_links s)) = length ids"
      "ids \<noteq> [] \<longrightarrow> cycle_exists cid s \<and> user_exists uid s \<and> list_all (\<lambda>i. candidate_exists i s) ids"
      by blast+
    have "distinct ids" using ok(2) by (metis distinct_remdups length_remdups_eq)
    then show ?thesis using ok(3) set_ranked_picks_ok(1) [OF ok] by (rule that(2))
  qed
  then have "picks_in_cycle c ?s'"
  proof cases
    case 1
    then show ?thesis using assms(2) by (simp add: picks_in_cycle_def cl)
  next
    case 2
    have new_ok: "\<exists>cand \<in> set (candidate_links s). cl_id cand = pk_candidate_id p \<and> cl_cycle_id cand = cid"
      if "p \<in> set ?new" for p
    proof -
      have "pk_candidate_id p \<in> pk_candidate_id ` set ?new" using that by (rule imageI)
      then have "pk_candidate_id p \<in> set (map pk_candidate_id ?new)" by (simp only: set_map)
      then have mem: "pk_candidate_id p \<in> set ids" by (simp only: new_picks_candidates)
      then have "ids \<noteq> []" by auto
      then show ?thesis
        using validated_ids_are_candidates [OF assms(1) 2(1) _ mem] 2(2) by simp
    qed
    have new_cycle: "pk_cycle_id p = cid" if "p \<in> set ?new" for p using that by (rule new_picks_cycle)
    show ?thesis
      unfolding picks_in_cycle_def list_all_iff list_ex_iff cl 2(3)
    proof (intro ballI impI)
      fix p assume p: "p \<in> set (?kept @ ?new)" and cy: "pk_cycle_id p = c"
      from p have "p \<in> set ?kept \<or> p \<in> set ?new" by simp
      then show "\<exists>x \<in> set (candidate_links s). cl_id x = pk_candidate_id p \<and> cl_cycle_id x = c"
      proof
        assume "p \<in> set ?kept"
        then have "p \<in> set (picks s)" by simp
        then show ?thesis using assms(2) cy by (auto simp: picks_in_cycle_def list_all_iff list_ex_iff)
      next
        assume n: "p \<in> set ?new"
        then have "c = cid" using new_cycle cy by blast
        then show ?thesis using new_ok [OF n] by simp
      qed
    qed
  qed
  then show ?thesis using assms(1) by (simp add: cl)
qed

lemma create_candidate_tables:
  "(candidate_links (snd (create_candidate lib new_id cid uid url now s)) = candidate_links s \<or>
    (\<exists>row. \<not> candidate_exists new_id s \<and> cl_id row = new_id \<and>
       candidate_links (snd (create_candidate lib new_id cid uid url now s)) = candidate_links s @ [row])) \<and>
   picks (snd (create_candidate lib new_id cid uid url now s)) = picks s"
proof (cases "canonicalize_url lib url")
  case (Inl e)
  then show ?thesis by (simp add: create_candidate_def)
next
  case canon: (Inr canonical)
  show ?thesis
  proof (cases "extract_domain lib canonical")
    case (Inl e)
    then show ?thesis using canon by (simp add: create_candidate_def)
  next
    case (Inr domain)
    show ?thesis
    proof (cases "candidate_exists new_id s
                  \<or> find_candidate_by_canonical cid canonical s \<noteq> None
                  \<or> \<not> cycle_exists cid s \<or> \<not> user_exists uid s")
      case True
      then show ?thesis using canon Inr
        by (cases "find_candidate_by_canonical cid canonical s") (auto simp: create_candidate_def)
    next
      case False
      then show ?thesis using canon Inr
        by (simp add: create_candidate_def Let_def)
    qed
  qed
qed

lemma picks_in_cycle_cong:
  "candidate_links s' = candidate_links s \<Longrightarrow> picks s' = picks s \<Longrightarrow>
   picks_in_cycle c s' = picks_in_cycle c s"
  by (simp add: picks_in_cycle_def)

lemma create_candidate_keeps_invariant:
  assumes "distinct (map cl_id (candidate_links s))" and "picks_in_cycle c s"
  shows "distinct (map cl_id (candidate_links (snd (create_candidate lib new_id cid uid url now s)))) \<and>
         picks_in_cycle c (snd (create_candidate lib new_id cid uid url now s))"
proof -
  let ?s' = "snd (create_candidate lib new_id cid uid url now s)"
  note t = create_candidate_tables [of lib new_id cid uid url now s]
  from t have pk: "picks ?s' = picks s" by blast
  from t consider "candidate_links ?s' = candidate_links s"
    | row where "\<not> candidate_exists new_id s" "cl_id row = new_id"
        "candidate_links ?s' = candidate_links s @ [row]" by blast
  then show ?thesis
  proof cases
    case 1
    then show ?thesis using assms pk picks_in_cycle_cong [OF 1 pk] by simp
  next
    case 2
    have "new_id \<notin> set (map cl_id (candidate_links s))"
      using 2(1) by (auto simp: candidate_exists_def list_ex_iff)
    then have d: "distinct (map cl_id (candidate_links ?s'))" using assms(1) 2(2,3) by simp
    have "picks_in_cycle c ?s'"
      using assms(2) unfolding picks_in_cycle_def list_all_iff list_ex_iff pk 2(3) by auto
    then show ?thesis using d by simp
  qed
qed

lemma picks_storage_reachable:
  "picks_storage =
     snd (market_set_ranked_picks ''cyc_1'' ''usr_b'' [''lnk_1'', ''lnk_3''] 2000000
     (snd (market_set_ranked_picks ''cyc_1'' ''usr_a'' [''lnk_1'', ''lnk_2''] 1000000
     (snd (create_candidate stdlib ''lnk_3'' ''cyc_1'' ''usr_b'' ''https://example.com/c'' 0
     (snd (create_candidate stdlib ''lnk_2'' ''cyc_1'' ''usr_a'' ''https://example.com/b'' 0
     (snd (create_candidate stdlib ''lnk_1'' ''cyc_1'' ''usr_a'' ''https://example.com/a'' 0
     (snd (create_cycle stdlib ''cyc_1'' (Some (Str ''2026-02-06'')) 739653 0
     (snd (create_user stdlib ''usr_b'' ''usr_b@example.com'' ''HUMAN'' (Some (Str ''2026-02-06'')) None 739653
     (snd (create_user stdlib ''usr_a'' ''usr_a@example.com'' ''HUMAN'' (Some (Str ''2026-02-06'')) None 739653
        empty_storage)))))))))))))))"
  by code_simp

text \<open>
  C7. The weight of a rank is 11 minus the rank for ranks 1 to 10 and 1 for any other
  rank; each candidate of the cycle gets the sum of the weights of the picks on it as its
  score and that score over the total weight of the cycle's picks as its probability.
  In a storage where candidate ids are unique and every pick of the cycle is on a
  candidate of the cycle (the primary key and the check of \<^verbatim>\<open>set_ranked_picks\<close>), the
  probabilities of all candidates sum to 1 when the total weight is positive, and all are
  0 when it is not. The quotients are exact here; the source computes them in floats.
\<close>

theorem market_probabilities_normalized:
  assumes "distinct (map cl_id (candidate_links s))" and "picks_in_cycle cid s"
  shows "rank_weight r = (if 1 \<le> r \<and> r \<le> 10 then 11 - r else 1) \<and>
         compute_market_probabilities cid s =
           sorted_desc pb_market_probability (map (probability_of cid s) (list_candidates cid s)) \<and>
         (total_pick_weight cid s > 0 \<longrightarrow>
            sum_list (map pb_market_probability (compute_market_probabilities cid s)) = 1) \<and>
         (\<not> total_pick_weight cid s > 0 \<longrightarrow>
            list_all (\<lambda>row. pb_market_probability row = 0) (compute_market_probabilities cid s))"
  using rank_weight_table [of r] compute_market_probabilities_rows [of cid s]
    probabilities_sum [OF assms] all_zero [of cid s]
  by simp

theorem market_probabilities_normalized_witness:
  "distinct (map cl_id (candidate_links picks_storage)) \<and> picks_in_cycle ''cyc_1'' picks_storage \<and>
   total_pick_weight ''cyc_1'' picks_storage = 38 \<and>
   map (\<lambda>row. (pb_candidate_id row, pb_rank_weight_score row, pb_market_probability row))
     (compute_market_probabilities ''cyc_1'' picks_storage) =
     [(''lnk_1'', 20, 20 / 38), (''lnk_2'', 9, 9 / 38), (''lnk_3'', 9, 9 / 38)] \<and>
   sum_list (map pb_market_probability (compute_market_probabilities ''cyc_1'' picks_storage)) = 1 \<and>
   distinct (map cl_id (candidate_links clicks_storage)) \<and> picks_in_cycle ''cyc_1'' clicks_storage \<and>
   total_pick_weight ''cyc_1'' clicks_storage = 0 \<and>
   list_all (\<lambda>row. pb_market_probability row = 0) (compute_market_probabilities ''cyc_1'' clicks_storage)"
proof -
  have d1: "distinct (map cl_id (candidate_links picks_storage))" by code_simp
  have i1: "picks_in_cycle ''cyc_1'' picks_storage" by code_simp
  have t1: "total_pick_weight ''cyc_1'' picks_storage = 38" by code_simp
  have r1: "map (\<lambda>row. (pb_candidate_id row, pb_rank_weight_score row, pb_market_probability row))
     (compute_market_probabilities ''cyc_1'' picks_storage) =
     [(''lnk_1'', 20, 20 / 38), (''lnk_2'', 9, 9 / 38), (''lnk_3'', 9, 9 / 38)]" by code_simp
  have d2: "distinct (map cl_id (candidate_links clicks_storage))" by code_simp
  have i2: "picks_in_cycle ''cyc_1'' clicks_storage" by code_simp
  have t2: "total_pick_weight ''cyc_1'' clicks_storage = 0" by code_simp
  note positive = market_probabilities_normalized [OF d1 i1, of 1, THEN conjunct2, THEN conjunct2, THEN conjunct1]
  note zero = market_probabilities_normalized [OF d2 i2, of 11, THEN conjunct2, THEN conjunct2, THEN conjunct2]
  show ?thesis
    using d1 i1 t1 r1 d2 i2 t2 positive zero by simp
qed

end
